theory Spec2Isabelle
  imports Complex_Main
begin

section \<open>Text: Python strings as lists of code points\<close>

text \<open>
  A Python \<^verbatim>\<open>str\<close> is a sequence of Unicode code points, and \<^verbatim>\<open>len\<close>, slicing and the
  regular expressions of the source all count code points. A text is therefore a list of
  natural numbers. ASCII literals are written through \<open>ustr\<close>; the Vietnamese letters of
  the source are written as their code points (the source file is in NFC).

  Naming: a source function \<^verbatim>\<open>_f\<close> is the constant \<open>f\<close> here (an Isabelle name cannot start
  with an underscore); fields of the source's dictionaries keep their key, prefixed where two
  dictionaries use the same key or the key is a word of Isabelle's own (\<open>cl_text\<close>,
  \<open>pt_text\<close>, \<open>sp_text\<close>, \<open>a_article\<close>, \<open>a_chapter\<close>, \<open>a_section\<close>, \<open>a_title\<close>).
\<close>

type_synonym ustring = "nat list"

definition ustr :: "string \<Rightarrow> ustring" where
  "ustr s = map of_char s"

text \<open>
  \<^verbatim>\<open>str.isspace\<close>, which is also what \<^verbatim>\<open>\s\<close> and \<^verbatim>\<open>str.strip()\<close> test: the white space of the
  Unicode database.
\<close>

definition is_space :: "nat \<Rightarrow> bool" where
  "is_space c \<longleftrightarrow>
     (9 \<le> c \<and> c \<le> 13) \<or> (28 \<le> c \<and> c \<le> 32) \<or> c = 133 \<or> c = 160 \<or> c = 5760 \<or>
     (8192 \<le> c \<and> c \<le> 8202) \<or> c = 8232 \<or> c = 8233 \<or> c = 8239 \<or> c = 8287 \<or> c = 12288"

text \<open>
  Scope of the character tables. \<^verbatim>\<open>\d\<close> is modelled on the ASCII digits, and the case
  mappings on ASCII, the Latin-1 letters \<open>U+00C0..U+00DE\<close>/\<open>U+00E0..U+00FE\<close> and the
  Vietnamese letters (\<open>U+0102/3\<close>, \<open>U+0110/1\<close>, \<open>U+0128/9\<close>, \<open>U+0168/9\<close>, \<open>U+01A0/1\<close>,
  \<open>U+01AF/B0\<close>, \<open>U+1EA0..U+1EF9\<close>); on these the tables are those of Python. Every other
  code point is treated as a caseless symbol that is not a digit. The general theorems below
  do not depend on these tables; the evaluations at concrete texts use ASCII and Vietnamese
  letters only.
\<close>

definition is_digit :: "nat \<Rightarrow> bool" where
  "is_digit c \<longleftrightarrow> 48 \<le> c \<and> c \<le> 57"

definition lower_cp :: "nat \<Rightarrow> nat" where
  "lower_cp c =
     (if 65 \<le> c \<and> c \<le> 90 then c + 32
      else if 192 \<le> c \<and> c \<le> 222 \<and> c \<noteq> 215 then c + 32
      else if c = 258 \<or> c = 272 \<or> c = 296 \<or> c = 360 \<or> c = 416 \<or> c = 431 then c + 1
      else if 7840 \<le> c \<and> c \<le> 7929 \<and> even c then c + 1
      else c)"

definition upper_cp :: "nat \<Rightarrow> nat" where
  "upper_cp c =
     (if 97 \<le> c \<and> c \<le> 122 then c - 32
      else if 224 \<le> c \<and> c \<le> 254 \<and> c \<noteq> 247 then c - 32
      else if c = 259 \<or> c = 273 \<or> c = 297 \<or> c = 361 \<or> c = 417 \<or> c = 432 then c - 1
      else if 7840 \<le> c \<and> c \<le> 7929 \<and> odd c then c - 1
      else c)"

definition upper :: "ustring \<Rightarrow> ustring" where
  "upper s = map upper_cp s"

definition strip :: "ustring \<Rightarrow> ustring" where
  "strip s = rev (dropWhile is_space (rev (dropWhile is_space s)))"

text \<open>The slice \<^verbatim>\<open>s[a:b]\<close> for \<open>0 \<le> a\<close>, \<open>0 \<le> b\<close>: empty when \<open>b \<le> a\<close>, cut at the end of \<open>s\<close>.\<close>

definition slice :: "ustring \<Rightarrow> nat \<Rightarrow> nat \<Rightarrow> ustring" where
  "slice s a b = take (b - a) (drop a s)"

text \<open>\<^verbatim>\<open>s.split('\n')\<close>: always at least one line.\<close>

fun split_nl :: "ustring \<Rightarrow> ustring list" where
  "split_nl [] = [[]]"
| "split_nl (c # cs) =
     (if c = 10 then [] # split_nl cs
      else (case split_nl cs of [] \<Rightarrow> [[c]] | l # ls \<Rightarrow> (c # l) # ls))"

fun starts_with :: "ustring \<Rightarrow> ustring \<Rightarrow> bool" where
  "starts_with [] s = True"
| "starts_with (k # ks) [] = False"
| "starts_with (k # ks) (c # cs) = (k = c \<and> starts_with ks cs)"

text \<open>\<^verbatim>\<open>kw in s\<close> on strings.\<close>

fun contains :: "ustring \<Rightarrow> ustring \<Rightarrow> bool" where
  "contains kw [] = (kw = [])"
| "contains kw (c # cs) = (starts_with kw (c # cs) \<or> contains kw cs)"

text \<open>\<^verbatim>\<open>str(n)\<close> for a natural number: its decimal digits.\<close>

fun str_of_nat :: "nat \<Rightarrow> ustring" where
  "str_of_nat n = (if n < 10 then [48 + n] else str_of_nat (n div 10) @ [48 + n mod 10])"

declare str_of_nat.simps [simp del]


section \<open>Regular expressions: the backtracking matcher of Python's re\<close>

text \<open>
  The patterns of the source use literals, character classes, repetition of a single
  character class (greedy or lazy), alternation, capturing groups, positive lookahead and
  the anchors \<^verbatim>\<open>^\<close>, \<^verbatim>\<open>$\<close> and \<^verbatim>\<open>\Z\<close>. The matcher returns every way a pattern matches at a
  position, in the order in which Python's backtracking tries them; the match Python reports
  is the first.

  A matcher state is the character before the position (for \<^verbatim>\<open>^\<close>), the text from the
  position on, the position, and the groups captured so far.
\<close>

datatype regex =
    Eps
  | Atom "nat \<Rightarrow> bool"
  | Seq regex regex
  | Alt regex regex
  | Rep bool nat "nat \<Rightarrow> bool"
  | Group nat regex
  | Look regex
  | Bol_multi
  | Bol_string
  | Eol_multi
  | Eol_string
  | End_Z

type_synonym mstate = "nat option \<times> ustring \<times> nat \<times> (nat \<times> ustring) list"

text \<open>\<open>Rep True n p\<close> is \<^verbatim>\<open>p{n,}\<close> (greedy: the longest run first), \<open>Rep False n p\<close> is \<^verbatim>\<open>p{n,}?\<close>.\<close>

fun rep_greedy :: "(nat \<Rightarrow> bool) \<Rightarrow> nat \<Rightarrow> mstate \<Rightarrow> mstate list" where
  "rep_greedy p n (prev, [], i, g) = (if n = 0 then [(prev, [], i, g)] else [])"
| "rep_greedy p n (prev, c # cs, i, g) =
     (if p c then rep_greedy p (n - 1) (Some c, cs, Suc i, g) else []) @
     (if n = 0 then [(prev, c # cs, i, g)] else [])"

fun rep_lazy :: "(nat \<Rightarrow> bool) \<Rightarrow> nat \<Rightarrow> mstate \<Rightarrow> mstate list" where
  "rep_lazy p n (prev, [], i, g) = (if n = 0 then [(prev, [], i, g)] else [])"
| "rep_lazy p n (prev, c # cs, i, g) =
     (if n = 0 then [(prev, c # cs, i, g)] else []) @
     (if p c then rep_lazy p (n - 1) (Some c, cs, Suc i, g) else [])"

fun rmatch :: "regex \<Rightarrow> mstate \<Rightarrow> mstate list" where
  "rmatch Eps st = [st]"
| "rmatch (Atom p) (prev, rest, i, g) =
     (case rest of [] \<Rightarrow> [] | c # cs \<Rightarrow> if p c then [(Some c, cs, Suc i, g)] else [])"
| "rmatch (Seq r1 r2) st = concat (map (rmatch r2) (rmatch r1 st))"
| "rmatch (Alt r1 r2) st = rmatch r1 st @ rmatch r2 st"
| "rmatch (Rep greedy n p) st = (if greedy then rep_greedy p n st else rep_lazy p n st)"
| "rmatch (Group k r) (prev, rest, i, g) =
     map (\<lambda>(prev', rest', i', g'). (prev', rest', i', (k, take (i' - i) rest) # g'))
       (rmatch r (prev, rest, i, g))"
| "rmatch (Look r) st = (case rmatch r st of [] \<Rightarrow> [] | _ # _ \<Rightarrow> [st])"
| "rmatch Bol_multi (prev, rest, i, g) =
     (if prev = None \<or> prev = Some 10 then [(prev, rest, i, g)] else [])"
| "rmatch Bol_string (prev, rest, i, g) = (if prev = None then [(prev, rest, i, g)] else [])"
| "rmatch Eol_multi (prev, rest, i, g) =
     (case rest of [] \<Rightarrow> [(prev, rest, i, g)]
      | c # cs \<Rightarrow> if c = 10 then [(prev, rest, i, g)] else [])"
| "rmatch Eol_string (prev, rest, i, g) =
     (if rest = [] \<or> rest = [10] then [(prev, rest, i, g)] else [])"
| "rmatch End_Z (prev, rest, i, g) = (if rest = [] then [(prev, rest, i, g)] else [])"

text \<open>A match object: \<^verbatim>\<open>m.start()\<close>, \<^verbatim>\<open>m.end()\<close> and the captured groups.\<close>

record rx_match =
  m_start :: nat
  m_end :: nat
  m_groups :: "(nat \<times> ustring) list"

definition group :: "rx_match \<Rightarrow> nat \<Rightarrow> ustring" where
  "group m k = (case map_of (m_groups m) k of None \<Rightarrow> [] | Some s \<Rightarrow> s)"

text \<open>\<^verbatim>\<open>pattern.match(s)\<close>: the first way the pattern matches at position 0.\<close>

definition re_match :: "regex \<Rightarrow> ustring \<Rightarrow> rx_match option" where
  "re_match r s =
     (case rmatch r (None, s, 0, []) of [] \<Rightarrow> None
      | (prev', rest', i', g') # _ \<Rightarrow> Some \<lparr>m_start = 0, m_end = i', m_groups = g'\<rparr>)"

text \<open>
  The scan of \<^verbatim>\<open>pattern.search\<close>: try the position, then the next one, up to and including the
  end of the text.
\<close>

fun search_from :: "regex \<Rightarrow> nat option \<Rightarrow> ustring \<Rightarrow> nat \<Rightarrow> rx_match option" where
  "search_from r prev [] i =
     (case rmatch r (prev, [], i, []) of [] \<Rightarrow> None
      | (prev', rest', i', g') # _ \<Rightarrow> Some \<lparr>m_start = i, m_end = i', m_groups = g'\<rparr>)"
| "search_from r prev (c # cs) i =
     (case rmatch r (prev, c # cs, i, []) of
        [] \<Rightarrow> search_from r (Some c) cs (Suc i)
      | (prev', rest', i', g') # _ \<Rightarrow> Some \<lparr>m_start = i, m_end = i', m_groups = g'\<rparr>)"

definition re_search :: "regex \<Rightarrow> ustring \<Rightarrow> rx_match option" where
  "re_search r s = search_from r None s 0"

text \<open>
  \<^verbatim>\<open>pattern.finditer\<close>: the matches from left to right, each search starting where the
  previous match ended. After an empty match the scan moves on by one character; no pattern
  of the source matches the empty string, so that branch is never taken by them.
\<close>

function finditer_from :: "regex \<Rightarrow> nat option \<Rightarrow> ustring \<Rightarrow> nat \<Rightarrow> rx_match list" where
  "finditer_from r prev rest i =
     (case search_from r prev rest i of
        None \<Rightarrow> []
      | Some m \<Rightarrow>
          (let k = m_end m - i in
           if rest = [] then [m]
           else if k = 0 then m # finditer_from r (Some (hd rest)) (tl rest) (Suc i)
           else m # finditer_from r (Some (rest ! (k - 1))) (drop k rest) (i + k)))"
  by pat_completeness auto
termination
proof (relation "measure (\<lambda>(r, prev, rest, i). length rest)", goal_cases)
  case 1
  show ?case by simp
next
  case (2 r prev rest i m k)
  then show ?case by (cases rest) simp_all
next
  case (3 r prev rest i m k)
  then have "0 < length rest" and "0 < k" by simp_all
  then show ?case by simp
qed

declare finditer_from.simps [simp del]

definition re_finditer :: "regex \<Rightarrow> ustring \<Rightarrow> rx_match list" where
  "re_finditer r s = finditer_from r None s 0"

text \<open>\<^verbatim>\<open>pattern.sub(repl, s)\<close> for a replacement without group references.\<close>

fun sub_loop :: "ustring \<Rightarrow> ustring \<Rightarrow> nat \<Rightarrow> rx_match list \<Rightarrow> ustring" where
  "sub_loop repl s pos [] = drop pos s"
| "sub_loop repl s pos (m # ms) = slice s pos (m_start m) @ repl @ sub_loop repl s (m_end m) ms"

definition re_sub :: "regex \<Rightarrow> ustring \<Rightarrow> ustring \<Rightarrow> ustring" where
  "re_sub r repl s = sub_loop repl s 0 (re_finditer r s)"


section \<open>The patterns of the segmenter\<close>

definition lit :: "nat \<Rightarrow> regex" where
  "lit c = Atom (\<lambda>x. x = c)"

text \<open>Under \<^verbatim>\<open>re.IGNORECASE\<close> a literal and a class member are compared in lower case.\<close>

definition lit_i :: "nat \<Rightarrow> regex" where
  "lit_i c = Atom (\<lambda>x. lower_cp x = lower_cp c)"

definition one_of :: "ustring \<Rightarrow> nat \<Rightarrow> bool" where
  "one_of cs c \<longleftrightarrow> c \<in> set cs"

definition one_of_i :: "ustring \<Rightarrow> nat \<Rightarrow> bool" where
  "one_of_i cs c \<longleftrightarrow> lower_cp c \<in> set (map lower_cp cs)"

definition seqs :: "regex list \<Rightarrow> regex" where
  "seqs rs = foldr Seq rs Eps"

fun alts :: "regex list \<Rightarrow> regex" where
  "alts [] = Eps"
| "alts [r] = r"
| "alts (r # rs) = Alt r (alts rs)"

definition word :: "ustring \<Rightarrow> regex" where
  "word s = seqs (map lit s)"

definition word_i :: "ustring \<Rightarrow> regex" where
  "word_i s = seqs (map lit_i s)"

definition opt :: "(nat \<Rightarrow> bool) \<Rightarrow> regex" where
  "opt p = Alt (Atom p) Eps"

definition star :: "(nat \<Rightarrow> bool) \<Rightarrow> regex" where
  "star p = Rep True 0 p"

definition plus1 :: "(nat \<Rightarrow> bool) \<Rightarrow> regex" where
  "plus1 p = Rep True 1 p"

definition star_lazy :: "(nat \<Rightarrow> bool) \<Rightarrow> regex" where
  "star_lazy p = Rep False 0 p"

definition any_char :: "nat \<Rightarrow> bool" where
  "any_char c \<longleftrightarrow> True"

definition not_nl :: "nat \<Rightarrow> bool" where
  "not_nl c \<longleftrightarrow> c \<noteq> 10"

definition not_cr_nl :: "nat \<Rightarrow> bool" where
  "not_cr_nl c \<longleftrightarrow> c \<noteq> 13 \<and> c \<noteq> 10"

definition lower_az :: "nat \<Rightarrow> bool" where
  "lower_az c \<longleftrightarrow> 97 \<le> c \<and> c \<le> 122"

text \<open>The words \<^verbatim>\<open>Dieu\<close>, \<^verbatim>\<open>Chuong\<close>, \<^verbatim>\<open>Phan\<close>, \<^verbatim>\<open>Muc\<close>, \<^verbatim>\<open>Tiet\<close> with their diacritics.\<close>

definition w_dieu :: ustring where
  "w_dieu = [272] @ ustr ''i'' @ [7873] @ ustr ''u''"

definition w_chuong :: ustring where
  "w_chuong = ustr ''Ch'' @ [432, 417] @ ustr ''ng''"

definition w_CHUONG :: ustring where
  "w_CHUONG = ustr ''CH'' @ [431, 416] @ ustr ''NG''"

definition w_phan :: ustring where
  "w_phan = ustr ''Ph'' @ [7847] @ ustr ''n''"

definition w_PHAN :: ustring where
  "w_PHAN = ustr ''PH'' @ [7846] @ ustr ''N''"

definition w_muc :: ustring where
  "w_muc = ustr ''M'' @ [7909] @ ustr ''c''"

definition w_MUC :: ustring where
  "w_MUC = ustr ''M'' @ [7908] @ ustr ''C''"

definition w_tiet :: ustring where
  "w_tiet = ustr ''Ti'' @ [7871] @ ustr ''t''"

definition w_TIET :: ustring where
  "w_TIET = ustr ''TI'' @ [7870] @ ustr ''T''"

text \<open>
  \<^verbatim>\<open>ART_LAW\<close>, flags \<^verbatim>\<open>IGNORECASE | MULTILINE | DOTALL\<close>:
  \<^verbatim>\<open>(Dieu\s+(\d+[a-zA-Z]?))\s*[\.\:\-]?\s*(.*?)(?=\s*Dieu\s+\d+|$)\<close>.
\<close>

definition ART_LAW :: regex where
  "ART_LAW = seqs
     [Group 1 (seqs [word_i w_dieu, plus1 is_space,
                     Group 2 (seqs [plus1 is_digit,
                                    opt (one_of_i (ustr ''abcdefghijklmnopqrstuvwxyz''))])]),
      star is_space, opt (one_of (ustr ''.:-'')), star is_space,
      Group 3 (star_lazy any_char),
      Look (Alt (seqs [star is_space, word_i w_dieu, plus1 is_space, plus1 is_digit])
                Eol_multi)]"

text \<open>
  \<^verbatim>\<open>CHAPTER\<close>, flags \<^verbatim>\<open>IGNORECASE | MULTILINE\<close>:
  \<^verbatim>\<open>(?:^|\n)\s*((?:Chuong|CHUONG|Phan|PHAN|Muc|MUC|Tiet|TIET)\s+(?:[IVXLCDM]+|\d+))\s*[\.\:\-]?\s*([^\r\n]*?)(?=\n|$)\<close>.
\<close>

definition CHAPTER :: regex where
  "CHAPTER = seqs
     [Alt Bol_multi (lit 10), star is_space,
      Group 1 (seqs [alts (map word_i [w_chuong, w_CHUONG, w_phan, w_PHAN,
                                       w_muc, w_MUC, w_tiet, w_TIET]),
                     plus1 is_space,
                     Alt (plus1 (one_of_i (ustr ''IVXLCDM''))) (plus1 is_digit)]),
      star is_space, opt (one_of (ustr ''.:-'')), star is_space,
      Group 2 (star_lazy not_cr_nl),
      Look (Alt (lit 10) Eol_multi)]"

text \<open>The keyword alternative \<^verbatim>\<open>(?:Dieu|Chuong|Phan|Muc|Tiet)\<close> of the lookaheads (case-sensitive).\<close>

definition structural_word :: regex where
  "structural_word = alts (map word [w_dieu, w_chuong, w_phan, w_muc, w_tiet])"

definition next_clause :: regex where
  "next_clause = seqs [lit 10, star is_space, plus1 is_digit, star is_space,
                       Atom (one_of (ustr ''.)''))]"

definition next_point :: regex where
  "next_point = seqs [lit 10, star is_space, Atom lower_az, star is_space, lit 41]"

definition next_structural :: regex where
  "next_structural = seqs [lit 10, star is_space, structural_word]"

text \<open>
  \<^verbatim>\<open>CLAUSE\<close>, flags \<^verbatim>\<open>MULTILINE | DOTALL\<close>:
  \<^verbatim>\<open>(?:^|\n)\s*(\d+)\s*[\.\)]\s+([^\n]*?)(?=(?:\n\s*\d+\s*[\.\)]|\n\s*[a-z]\s*\)|\n\s*(?:Dieu|...)|\Z))\<close>.
\<close>

definition CLAUSE :: regex where
  "CLAUSE = seqs
     [Alt Bol_multi (lit 10), star is_space,
      Group 1 (plus1 is_digit), star is_space, Atom (one_of (ustr ''.)'')), plus1 is_space,
      Group 2 (star_lazy not_nl),
      Look (alts [next_clause, next_point, next_structural, End_Z])]"

text \<open>
  \<^verbatim>\<open>POINT\<close>, flags \<^verbatim>\<open>MULTILINE | DOTALL\<close>:
  \<^verbatim>\<open>(?:^|\n)\s*([a-z])\s*\)\s+([^\n]*?)(?=(?:\n\s*[a-z]\s*\)|\n\s*\d+\s*[\.\)]|\n\s*(?:Dieu|...)|\Z))\<close>.
\<close>

definition POINT :: regex where
  "POINT = seqs
     [Alt Bol_multi (lit 10), star is_space,
      Group 1 (Atom lower_az), star is_space, lit 41, plus1 is_space,
      Group 2 (star_lazy not_nl),
      Look (alts [next_point, next_clause, next_structural, End_Z])]"

text \<open>
  \<^verbatim>\<open>SUBPOINT\<close>, flags \<^verbatim>\<open>MULTILINE | DOTALL\<close>:
  \<^verbatim>\<open>(?:^|\n)\s*(-)\s+([^\n]*?)(?=(?:\n\s*-|\n\s*[a-z]\s*\)|\n\s*\d+\s*[\.\)]|\Z))\<close>.
\<close>

definition SUBPOINT :: regex where
  "SUBPOINT = seqs
     [Alt Bol_multi (lit 10), star is_space,
      Group 1 (lit 45), plus1 is_space,
      Group 2 (star_lazy not_nl),
      Look (alts [seqs [lit 10, star is_space, lit 45], next_point, next_clause, End_Z])]"

text \<open>
  \<^verbatim>\<open>ROMAN\<close>, flags \<^verbatim>\<open>IGNORECASE | MULTILINE\<close>:
  \<^verbatim>\<open>(?:^|\n)\s*([IVXLCDM]+)\s*\.\s*([^\r\n]*?)(?=\n|$)\<close>.
\<close>

definition ROMAN :: regex where
  "ROMAN = seqs
     [Alt Bol_multi (lit 10), star is_space,
      Group 1 (plus1 (one_of_i (ustr ''IVXLCDM''))), star is_space, lit 46, star is_space,
      Group 2 (star_lazy not_cr_nl),
      Look (Alt (lit 10) Eol_multi)]"

text \<open>
  \<^verbatim>\<open>DOC_TYPE_PATTERNS\<close>, in the insertion order of the dictionary, all \<^verbatim>\<open>IGNORECASE\<close>:
  \<^verbatim>\<open>LUAT|LAW\<close>, \<^verbatim>\<open>NGHI\s*DINH|DECREE\<close>, \<^verbatim>\<open>THONG\s*TU|CIRCULAR\<close>, \<^verbatim>\<open>QUYET\s*DINH|DECISION\<close>,
  \<^verbatim>\<open>CHI\s*THI|DIRECTIVE\<close>, \<^verbatim>\<open>HUONG\s*DAN|INSTRUCTION\<close> (with their diacritics).
\<close>

definition two_words_i :: "ustring \<Rightarrow> ustring \<Rightarrow> regex" where
  "two_words_i a b = seqs [word_i a, star is_space, word_i b]"

definition DOC_TYPE_PATTERNS :: "(string \<times> regex) list" where
  "DOC_TYPE_PATTERNS =
     [(''law'', Alt (word_i (ustr ''LU'' @ [7852] @ ustr ''T'')) (word_i (ustr ''LAW''))),
      (''decree'', Alt (two_words_i (ustr ''NGH'' @ [7882]) ([272, 7882] @ ustr ''NH''))
                       (word_i (ustr ''DECREE''))),
      (''circular'', Alt (two_words_i (ustr ''TH'' @ [212] @ ustr ''NG'') (ustr ''T'' @ [431]))
                         (word_i (ustr ''CIRCULAR''))),
      (''decision'', Alt (two_words_i (ustr ''QUY'' @ [7870] @ ustr ''T'')
                                      ([272, 7882] @ ustr ''NH''))
                         (word_i (ustr ''DECISION''))),
      (''directive'', Alt (two_words_i (ustr ''CH'' @ [7880]) (ustr ''TH'' @ [7882]))
                          (word_i (ustr ''DIRECTIVE''))),
      (''instruction'', Alt (two_words_i (ustr ''H'' @ [431, 7898] @ ustr ''NG'')
                                         (ustr ''D'' @ [7850] @ ustr ''N''))
                            (word_i (ustr ''INSTRUCTION'')))]"

text \<open>The line pattern \<^verbatim>\<open>^(\d+)\s*[\.\)]\s+(.+)\<close> of the line-by-line scans (no flags).\<close>

definition LINE_CLAUSE :: regex where
  "LINE_CLAUSE = seqs
     [Bol_string, Group 1 (plus1 is_digit), star is_space, Atom (one_of (ustr ''.)'')),
      plus1 is_space, Group 2 (plus1 not_nl)]"

text \<open>
  The upper-case class of the header patterns: \<^verbatim>\<open>A-Z\<close> and the upper-case Vietnamese letters,
  as listed in the source.
\<close>

definition vn_upper :: "nat \<Rightarrow> bool" where
  "vn_upper c \<longleftrightarrow> (65 \<le> c \<and> c \<le> 90) \<or> c \<in> set
     [192, 193, 7840, 7842, 195, 194, 7846, 7844, 7852, 7848, 7850, 258, 7856, 7854, 7862,
      7858, 7860, 200, 201, 7864, 7866, 7868, 202, 7872, 7870, 7878, 7874, 7876, 204, 205,
      7882, 7880, 296, 210, 211, 7884, 7886, 213, 212, 7890, 7888, 7896, 7892, 7894, 416,
      7900, 7898, 7906, 7902, 7904, 217, 218, 7908, 7910, 360, 431, 7914, 7912, 7920, 7916,
      7918, 7922, 221, 7924, 7926, 7928, 272]"

text \<open>
  \<^verbatim>\<open>header_patterns\<close> (no flags): \<^verbatim>\<open>^[IVXLCDM]+\.\s+.+\<close>, \<^verbatim>\<open>^\d+\.\s+[A-Z...].+\<close> and
  \<^verbatim>\<open>^[A-Z...\s]{10,}$\<close>.
\<close>

definition header_patterns :: "regex list" where
  "header_patterns =
     [seqs [Bol_string, plus1 (one_of (ustr ''IVXLCDM'')), lit 46, plus1 is_space,
            plus1 not_nl],
      seqs [Bol_string, plus1 is_digit, lit 46, plus1 is_space, Atom vn_upper, plus1 not_nl],
      seqs [Bol_string, Rep True 10 (\<lambda>c. vn_upper c \<or> is_space c), Eol_string]]"

definition header_keywords :: "ustring list" where
  "header_keywords =
     [ustr ''M'' @ [7908] @ ustr ''C TI'' @ [202] @ ustr ''U'',
      ustr ''Y'' @ [202] @ ustr ''U C'' @ [7846] @ ustr ''U'',
      ustr ''NHI'' @ [7878] @ ustr ''M V'' @ [7908],
      ustr ''QUY '' @ [272, 7882] @ ustr ''NH'',
      ustr ''NGUY'' @ [202] @ ustr ''N T'' @ [7854] @ ustr ''C'',
      ustr ''PH'' @ [7840] @ ustr ''M VI'',
      [272, 7888] @ ustr ''I T'' @ [431, 7906] @ ustr ''NG'',
      ustr ''GI'' @ [7842] @ ustr ''I TH'' @ [205] @ ustr ''CH'',
      ustr ''THI H'' @ [192] @ ustr ''NH'']"

text \<open>The patterns of \<^verbatim>\<open>_normalize_text\<close> and of \<^verbatim>\<open>_norm_text\<close>.\<close>

definition RX_CRLF :: regex where
  "RX_CRLF = Seq (lit 13) (lit 10)"

definition RX_CR :: regex where
  "RX_CR = lit 13"

definition RX_BLANK_LINES :: regex where
  "RX_BLANK_LINES = seqs [lit 10, star is_space, lit 10, star is_space, lit 10]"

definition RX_SPACES :: regex where
  "RX_SPACES = plus1 (\<lambda>c. c = 32 \<or> c = 9)"

definition RX_WS :: regex where
  "RX_WS = plus1 is_space"


section \<open>The data model: the dictionaries of the segmenter\<close>

text \<open>
  The source builds plain dictionaries. A key that a dictionary may lack is an \<open>option\<close>
  field. An article has the key \<^verbatim>\<open>article\<close>, \<^verbatim>\<open>chapter\<close> or \<^verbatim>\<open>section\<close> according to the strategy
  that made it. The tags of the source (\<^verbatim>\<open>strategy_used\<close>, \<^verbatim>\<open>document_type\<close>, \<^verbatim>\<open>status\<close>, \<^verbatim>\<open>level\<close>,
  \<^verbatim>\<open>change\<close>) are ASCII strings and stay strings.
\<close>

record sub_point =
  marker :: ustring
  sp_text :: ustring

record point =
  letter :: ustring
  pt_text :: ustring
  sub_points :: "sub_point list"

record clause =
  no :: "ustring option"
  cl_text :: ustring
  points :: "point list"

record article =
  a_article :: "ustring option"
  a_chapter :: "ustring option"
  a_chapter_title :: "ustring option"
  a_section :: "ustring option"
  a_title :: "ustring option"
  clauses :: "clause list"

text \<open>
  The issues of the validation are formatted strings in the source; here each kind of
  message is a constructor that carries the number the message prints:
  \<^verbatim>\<open>"Empty document"\<close>, \<^verbatim>\<open>"Low content preservation: <ratio>"\<close>,
  \<^verbatim>\<open>"Content duplication detected: <ratio>"\<close>, \<^verbatim>\<open>"No articles found"\<close>,
  \<^verbatim>\<open>"Very long clause detected (<n> chars)"\<close>.
\<close>

datatype issue =
    Empty_document
  | Low_content_preservation rat
  | Content_duplication rat
  | No_articles_found
  | Very_long_clause nat

record seg_stats =
  original_length :: nat
  segmented_length :: nat
  preservation_ratio :: rat
  total_articles :: nat
  total_clauses :: nat
  total_points :: nat

record validation =
  status :: string
  issues :: "issue list"
  stats :: "seg_stats option"

record seg_structure =
  articles :: "article list"
  strategy_used :: "string option"
  validation :: "validation option"
  document_type :: "string option"

record doc_meta =
  meta_title :: ustring
  meta_number :: ustring

definition dict_article :: "ustring \<Rightarrow> ustring \<Rightarrow> clause list \<Rightarrow> article" where
  "dict_article label ttl cs =
     \<lparr>a_article = Some label, a_chapter = None, a_chapter_title = None, a_section = None,
      a_title = Some ttl, clauses = cs\<rparr>"

definition dict_chapter :: "ustring \<Rightarrow> ustring \<Rightarrow> clause list \<Rightarrow> article" where
  "dict_chapter label ttl cs =
     \<lparr>a_article = None, a_chapter = Some label, a_chapter_title = None, a_section = None,
      a_title = Some ttl, clauses = cs\<rparr>"

definition dict_section :: "ustring \<Rightarrow> ustring \<Rightarrow> clause list \<Rightarrow> article" where
  "dict_section label ttl cs =
     \<lparr>a_article = None, a_chapter = None, a_chapter_title = None, a_section = Some label,
      a_title = Some ttl, clauses = cs\<rparr>"

text \<open>The clause \<^verbatim>\<open>{"no": "1", "text": content, "points": []}\<close>.\<close>

definition whole_clause :: "ustring \<Rightarrow> clause" where
  "whole_clause content = \<lparr>no = Some (ustr ''1''), cl_text = content, points = []\<rparr>"


section \<open>The segmenter\<close>

definition normalize_text :: "ustring \<Rightarrow> ustring" where
  "normalize_text text0 =
     (let text1 = strip text0;
          text2 = re_sub RX_CRLF [10] text1;
          text3 = re_sub RX_CR [10] text2;
          text4 = re_sub RX_BLANK_LINES [10, 10] text3
      in re_sub RX_SPACES [32] text4)"

text \<open>
  \<^verbatim>\<open>_detect_document_type\<close>. The two loops over \<^verbatim>\<open>DOC_TYPE_PATTERNS.items()\<close> are \<open>first_type\<close>
  with the test of the loop body. A metadata dictionary without a key reads \<^verbatim>\<open>''\<close> for it
  (\<^verbatim>\<open>.get(key, '')\<close>), so it is the record with that field empty. The empty dictionary,
  which \<^verbatim>\<open>if doc_meta\<close> skips, is the record with both fields empty: no pattern matches the
  empty string, so the loop finds nothing there either. Title and number are strings.
\<close>

fun first_type :: "(regex \<Rightarrow> bool) \<Rightarrow> (string \<times> regex) list \<Rightarrow> string option" where
  "first_type found [] = None"
| "first_type found ((doc_type, pattern) # rest) =
     (if found pattern then Some doc_type else first_type found rest)"

definition searches :: "regex \<Rightarrow> ustring \<Rightarrow> bool" where
  "searches pattern s \<longleftrightarrow> re_search pattern s \<noteq> None"

text \<open>The tests of the two loop bodies: on the metadata, and on the first 1000 characters.\<close>

definition meta_matches :: "doc_meta \<Rightarrow> regex \<Rightarrow> bool" where
  "meta_matches d pattern \<longleftrightarrow>
     (let ttl = upper (meta_title d); number = upper (meta_number d)
      in searches pattern ttl \<or> searches pattern number)"

definition text_matches :: "ustring \<Rightarrow> regex \<Rightarrow> bool" where
  "text_matches text pattern \<longleftrightarrow> (let text_upper = upper (take 1000 text) in searches pattern text_upper)"

definition detect_in_meta :: "doc_meta option \<Rightarrow> string option" where
  "detect_in_meta doc_meta =
     (case doc_meta of
        None \<Rightarrow> None
      | Some d \<Rightarrow> first_type (meta_matches d) DOC_TYPE_PATTERNS)"

definition detect_document_type :: "ustring \<Rightarrow> doc_meta option \<Rightarrow> string" where
  "detect_document_type text doc_meta =
     (case detect_in_meta doc_meta of
        Some doc_type \<Rightarrow> doc_type
      | None \<Rightarrow>
          (case first_type (text_matches text) DOC_TYPE_PATTERNS of
             Some doc_type \<Rightarrow> doc_type
           | None \<Rightarrow> ''generic''))"

text \<open>\<^verbatim>\<open>_parse_points_advanced\<close>.\<close>

definition parse_sub_points :: "ustring \<Rightarrow> sub_point list" where
  "parse_sub_points text =
     map (\<lambda>sub_match. \<lparr>marker = group sub_match 1, sp_text = strip (group sub_match 2)\<rparr>)
       (re_finditer SUBPOINT text)"

definition parse_points_advanced :: "ustring \<Rightarrow> point list" where
  "parse_points_advanced content =
     map (\<lambda>m. let text = strip (group m 2)
              in \<lparr>letter = group m 1, pt_text = text, sub_points = parse_sub_points text\<rparr>)
       (re_finditer POINT content)"

text \<open>
  \<^verbatim>\<open>_parse_clauses_advanced\<close>. Strategy 2 is the loop \<open>clause_lines\<close> over the lines, with the
  list \<^verbatim>\<open>clauses\<close> and \<^verbatim>\<open>current_clause\<close> as its state.
\<close>

definition close_clause :: "clause list \<Rightarrow> clause option \<Rightarrow> clause list" where
  "close_clause cs current_clause =
     (case current_clause of
        None \<Rightarrow> cs
      | Some c \<Rightarrow> cs @ [c\<lparr>points := parse_points_advanced (cl_text c)\<rparr>])"

fun clause_lines :: "ustring list \<Rightarrow> clause list \<Rightarrow> clause option \<Rightarrow> clause list \<times> clause option"
  where
  "clause_lines [] cs current_clause = (cs, current_clause)"
| "clause_lines (l # ls) cs current_clause =
     (let line = strip l in
      if line = [] then clause_lines ls cs current_clause
      else
        (case re_match LINE_CLAUSE line of
           Some clause_match \<Rightarrow>
             clause_lines ls (close_clause cs current_clause)
               (Some \<lparr>no = Some (group clause_match 1), cl_text = group clause_match 2,
                      points = []\<rparr>)
         | None \<Rightarrow>
             (case current_clause of
                Some c \<Rightarrow> clause_lines ls cs (Some (c\<lparr>cl_text := cl_text c @ [32] @ line\<rparr>))
              | None \<Rightarrow> clause_lines ls cs (Some (whole_clause line)))))"

definition parse_clauses_advanced :: "ustring \<Rightarrow> clause list" where
  "parse_clauses_advanced content =
     (if content = [] then []
      else
        (let clause_matches = re_finditer CLAUSE content in
         if clause_matches \<noteq> [] then
           map (\<lambda>m. let clause_text = strip (group m 2)
                    in \<lparr>no = Some (group m 1), cl_text = clause_text,
                        points = parse_points_advanced clause_text\<rparr>)
             clause_matches
         else
           (let (cs, current_clause) = clause_lines (split_nl content) [] None;
                cs' = close_clause cs current_clause
            in if cs' = [] \<and> content \<noteq> [] then cs' @ [whole_clause content] else cs')))"

text \<open>
  The clauses of a span in \<^verbatim>\<open>_segment_by_dieu\<close>, \<^verbatim>\<open>_segment_by_chapters_advanced\<close> and
  \<^verbatim>\<open>_segment_by_roman_advanced\<close>: the parsed clauses, or the whole content as one clause.
\<close>

definition clauses_or_whole :: "ustring \<Rightarrow> clause list" where
  "clauses_or_whole content =
     (let cs = parse_clauses_advanced content
      in if cs = [] \<and> content \<noteq> [] then [whole_clause content] else cs)"

text \<open>
  The span of a match in the loops over \<^verbatim>\<open>enumerate(matches)\<close>: from the end of the match to
  the start of the next one, or to the end of the text.
\<close>

definition span_content :: "ustring \<Rightarrow> rx_match \<Rightarrow> rx_match list \<Rightarrow> ustring" where
  "span_content text m later =
     (let start_pos = m_end m;
          end_pos = (case later of [] \<Rightarrow> length text | m' # _ \<Rightarrow> m_start m')
      in strip (slice text start_pos end_pos))"

fun segment_by_dieu :: "ustring \<Rightarrow> rx_match list \<Rightarrow> article list" where
  "segment_by_dieu text [] = []"
| "segment_by_dieu text (m # ms) =
     (let article_num = w_dieu @ [32] @ group m 2;
          article_title = strip (group m 3);
          content = span_content text m ms
      in dict_article article_num article_title (clauses_or_whole content)
         # segment_by_dieu text ms)"

definition in_chapter :: "ustring \<Rightarrow> ustring \<Rightarrow> article \<Rightarrow> article" where
  "in_chapter chapter_num ttl a = a\<lparr>a_chapter := Some chapter_num, a_chapter_title := Some ttl\<rparr>"

fun segment_by_chapters_advanced :: "ustring \<Rightarrow> rx_match list \<Rightarrow> article list" where
  "segment_by_chapters_advanced text [] = []"
| "segment_by_chapters_advanced text (m # ms) =
     (let chapter_num = group m 1;
          ttl = strip (group m 2);
          content = span_content text m ms;
          dieu_in_chapter = re_finditer ART_LAW content
      in (if length dieu_in_chapter \<ge> 1
          then map (in_chapter chapter_num ttl) (segment_by_dieu content dieu_in_chapter)
          else [dict_chapter chapter_num ttl (clauses_or_whole content)])
         @ segment_by_chapters_advanced text ms)"

fun segment_by_roman_advanced :: "ustring \<Rightarrow> rx_match list \<Rightarrow> article list" where
  "segment_by_roman_advanced text [] = []"
| "segment_by_roman_advanced text (m # ms) =
     (let section_num = group m 1;
          section_title = strip (group m 2);
          content = span_content text m ms
      in dict_section section_num section_title (clauses_or_whole content)
         # segment_by_roman_advanced text ms)"

text \<open>
  \<^verbatim>\<open>_segment_fallback_advanced\<close>. The first loop classifies the stripped, non-empty lines as
  header or content; the second loop groups them, with the list \<^verbatim>\<open>articles\<close> and
  \<^verbatim>\<open>current_article\<close> as its state.
\<close>

definition is_header :: "ustring \<Rightarrow> bool" where
  "is_header line \<longleftrightarrow>
     list_ex (\<lambda>pattern. re_match pattern line \<noteq> None) header_patterns \<or>
     (length line < 100 \<and> list_ex (\<lambda>keyword. contains keyword (upper line)) header_keywords)"

definition structured_lines :: "ustring \<Rightarrow> (bool \<times> ustring) list" where
  "structured_lines text =
     map (\<lambda>line. (is_header line, line)) (filter (\<lambda>line. line \<noteq> []) (map strip (split_nl text)))"

definition save_article :: "article list \<Rightarrow> article option \<Rightarrow> article list" where
  "save_article arts current_article =
     (case current_article of
        None \<Rightarrow> arts
      | Some a \<Rightarrow> if clauses a \<noteq> [] then arts @ [a] else arts)"

definition add_content :: "article \<Rightarrow> ustring \<Rightarrow> article" where
  "add_content a line =
     (case re_match LINE_CLAUSE line of
        Some clause_match \<Rightarrow>
          a\<lparr>clauses := clauses a @
               [\<lparr>no = Some (group clause_match 1), cl_text = group clause_match 2,
                 points = []\<rparr>]\<rparr>
      | None \<Rightarrow>
          if clauses a \<noteq> []
          then a\<lparr>clauses := butlast (clauses a) @
                    [(last (clauses a))\<lparr>cl_text := cl_text (last (clauses a)) @ [32] @ line\<rparr>]\<rparr>
          else a\<lparr>clauses := [whole_clause line]\<rparr>)"

fun group_lines ::
  "(bool \<times> ustring) list \<Rightarrow> article list \<Rightarrow> article option \<Rightarrow> article list \<times> article option"
  where
  "group_lines [] arts current_article = (arts, current_article)"
| "group_lines ((header, line) # items) arts current_article =
     (if header then
        (let arts' = save_article arts current_article
         in group_lines items arts'
              (Some (dict_section (ustr ''Section_'' @ str_of_nat (length arts' + 1)) line [])))
      else
        (let a = (case current_article of
                    Some a \<Rightarrow> a
                  | None \<Rightarrow> dict_section (ustr ''General'') (ustr ''Document Content'') [])
         in group_lines items arts (Some (add_content a line))))"

text \<open>The single article of the ultimate fallback.\<close>

definition full_content :: "ustring \<Rightarrow> article" where
  "full_content text = dict_section (ustr ''Document'') (ustr ''Full Content'') [whole_clause text]"

definition segment_fallback_advanced :: "ustring \<Rightarrow> article list" where
  "segment_fallback_advanced text =
     (let (arts, current_article) = group_lines (structured_lines text) [] None;
          arts' = save_article arts current_article
      in if arts' = [] then [full_content text] else arts')"

text \<open>The helpers \<^verbatim>\<open>_try_segment_by_*\<close> of the generic cascade.\<close>

definition try_segment_by_chapters :: "ustring \<Rightarrow> article list" where
  "try_segment_by_chapters text =
     (let chapter_matches = re_finditer CHAPTER text
      in if chapter_matches \<noteq> [] then segment_by_chapters_advanced text chapter_matches else [])"

definition try_segment_by_sections :: "ustring \<Rightarrow> article list" where
  "try_segment_by_sections text = []"

definition try_segment_by_roman :: "ustring \<Rightarrow> article list" where
  "try_segment_by_roman text =
     (let roman_matches = re_finditer ROMAN text
      in if length roman_matches \<ge> 2 then segment_by_roman_advanced text roman_matches else [])"

text \<open>
  The dictionaries returned by the four cascades: \<^verbatim>\<open>{"articles": ...}\<close>, with or without the
  key \<^verbatim>\<open>strategy_used\<close>.
\<close>

definition result :: "article list \<Rightarrow> string option \<Rightarrow> seg_structure" where
  "result arts strategy =
     \<lparr>articles = arts, strategy_used = strategy, validation = None, document_type = None\<rparr>"

text \<open>The chapter loop written inside \<^verbatim>\<open>_segment_law_document\<close>.\<close>

fun law_chapters :: "ustring \<Rightarrow> rx_match list \<Rightarrow> article list" where
  "law_chapters text [] = []"
| "law_chapters text (chapter_match # ms) =
     (let chapter_num = group chapter_match 1;
          ttl = strip (group chapter_match 2);
          chapter_content = span_content text chapter_match ms;
          dieu_matches = re_finditer ART_LAW chapter_content
      in (if dieu_matches \<noteq> []
          then map (in_chapter chapter_num ttl) (segment_by_dieu chapter_content dieu_matches)
          else [dict_chapter chapter_num ttl (parse_clauses_advanced chapter_content)])
         @ law_chapters text ms)"

definition segment_law_document :: "ustring \<Rightarrow> seg_structure" where
  "segment_law_document text =
     (let dieu_matches = re_finditer ART_LAW text in
      if length dieu_matches \<ge> 2
      then result (segment_by_dieu text dieu_matches) (Some ''dieu'')
      else
        (let chapter_matches = re_finditer CHAPTER text in
         if chapter_matches \<noteq> [] then result (law_chapters text chapter_matches) None
         else
           (let dieu_matches = re_finditer ART_LAW text in
            if dieu_matches \<noteq> [] then result (segment_by_dieu text dieu_matches) None
            else result (segment_fallback_advanced text) None)))"

definition segment_decree_document :: "ustring \<Rightarrow> seg_structure" where
  "segment_decree_document text =
     (let dieu_matches = re_finditer ART_LAW text in
      if length dieu_matches \<ge> 1 then result (segment_by_dieu text dieu_matches) None
      else
        (let chapter_matches = re_finditer CHAPTER text in
         if chapter_matches \<noteq> []
         then result (segment_by_chapters_advanced text chapter_matches) None
         else result (segment_fallback_advanced text) None))"

definition segment_circular_document :: "ustring \<Rightarrow> seg_structure" where
  "segment_circular_document text =
     (let chapter_matches = re_finditer CHAPTER text in
      if chapter_matches \<noteq> []
      then result (segment_by_chapters_advanced text chapter_matches) None
      else
        (let dieu_matches = re_finditer ART_LAW text in
         if dieu_matches \<noteq> [] then result (segment_by_dieu text dieu_matches) None
         else
           (let roman_matches = re_finditer ROMAN text in
            if length roman_matches \<ge> 2
            then result (segment_by_roman_advanced text roman_matches) None
            else result (segment_fallback_advanced text) None)))"

text \<open>
  The loop over \<^verbatim>\<open>strategies\<close> in \<^verbatim>\<open>_segment_generic_document\<close>: the first strategy with a
  non-empty result wins. (The \<^verbatim>\<open>try/except\<close> around each strategy has nothing to catch: the
  strategies only match patterns and build lists.)
\<close>

fun try_strategies :: "(string \<times> article list) list \<Rightarrow> seg_structure option" where
  "try_strategies [] = None"
| "try_strategies ((strategy_name, res) # rest) =
     (if res \<noteq> [] then Some (result res (Some strategy_name)) else try_strategies rest)"

definition segment_generic_document :: "ustring \<Rightarrow> seg_structure" where
  "segment_generic_document text =
     (let dieu_matches = re_finditer ART_LAW text in
      if length dieu_matches \<ge> 2
      then result (segment_by_dieu text dieu_matches) (Some ''dieu'')
      else
        (case try_strategies
                [(''chapters'', try_segment_by_chapters text),
                 (''sections'', try_segment_by_sections text),
                 (''roman'', try_segment_by_roman text),
                 (''fallback'', segment_fallback_advanced text)] of
           Some r \<Rightarrow> r
         | None \<Rightarrow> result (segment_fallback_advanced text) (Some ''ultimate_fallback'')))"

text \<open>
  \<^verbatim>\<open>_validate_segmentation\<close>. The ratio is a Python float in the source and an exact rational
  here; the thresholds \<^verbatim>\<open>0.7\<close> and \<^verbatim>\<open>1.3\<close> are \<open>7/10\<close> and \<open>13/10\<close>. (The two agree on every
  text shorter than \<open>10^14\<close> characters: a quotient of two such lengths that is not \<open>7/10\<close>
  differs from it by more than the rounding error of a double, and likewise for \<open>13/10\<close>.)
\<close>

definition flag :: "issue \<Rightarrow> string \<Rightarrow> validation \<Rightarrow> validation" where
  "flag i st v = v\<lparr>issues := issues v @ [i], status := st\<rparr>"

definition check_clause :: "validation \<Rightarrow> clause \<Rightarrow> validation" where
  "check_clause v c =
     (if length (cl_text c) > 2000 then flag (Very_long_clause (length (cl_text c))) ''warning'' v
      else v)"

definition validate_segmentation :: "ustring \<Rightarrow> seg_structure \<Rightarrow> nat \<Rightarrow> validation" where
  "validate_segmentation original_text res original_len =
     (let arts = articles res;
          total_segmented_length =
            sum_list (map (\<lambda>a. sum_list (map (\<lambda>c. length (cl_text c)) (clauses a))) arts);
          total_cl = sum_list (map (\<lambda>a. length (clauses a)) arts);
          total_pt = sum_list (map (\<lambda>a. sum_list (map (\<lambda>c. length (points c)) (clauses a))) arts);
          ratio = (if original_len > 0
                   then of_nat total_segmented_length / of_nat original_len else 0);
          v0 = \<lparr>status = ''success'', issues = [],
                stats = Some \<lparr>original_length = original_len,
                              segmented_length = total_segmented_length,
                              preservation_ratio = ratio,
                              total_articles = length arts,
                              total_clauses = total_cl,
                              total_points = total_pt\<rparr>\<rparr>;
          v1 = (if ratio < 7 / 10 then flag (Low_content_preservation ratio) ''warning'' v0
                else v0);
          v2 = (if ratio > 13 / 10 then flag (Content_duplication ratio) ''warning'' v1 else v1);
          v3 = (if length arts = 0 then flag No_articles_found ''error'' v2 else v2)
      in foldl check_clause v3 (concat (map clauses arts)))"

text \<open>\<^verbatim>\<open>segment\<close>.\<close>

definition segment :: "ustring \<Rightarrow> doc_meta option \<Rightarrow> seg_structure" where
  "segment doc_text meta =
     (if doc_text = [] then
        \<lparr>articles = [], strategy_used = None,
         validation = Some \<lparr>status = ''empty'', issues = [Empty_document], stats = None\<rparr>,
         document_type = None\<rparr>
      else
        (let text = normalize_text doc_text;
             original_len = length text;
             doc_type = detect_document_type text meta;
             res = (if doc_type = ''law'' then segment_law_document text
                    else if doc_type = ''decree'' then segment_decree_document text
                    else if doc_type = ''circular'' then segment_circular_document text
                    else segment_generic_document text)
         in res\<lparr>validation := Some (validate_segmentation text res original_len),
                document_type := Some doc_type\<rparr>))"


section \<open>The structural differ\<close>

text \<open>
  \<^verbatim>\<open>_norm_text\<close>: strip, then every run of white space becomes one space.
\<close>

definition norm_text :: "ustring \<Rightarrow> ustring" where
  "norm_text s = re_sub RX_WS [32] (strip s)"

text \<open>
  The value of an optional key, with the missing key, \<^verbatim>\<open>None\<close> and \<^verbatim>\<open>''\<close> all read as the empty
  string: the tests \<^verbatim>\<open>"article" in a and a["article"]\<close> and \<^verbatim>\<open>if not no\<close> of the source do not
  tell them apart.
\<close>

definition val :: "ustring option \<Rightarrow> ustring" where
  "val x = (case x of None \<Rightarrow> [] | Some s \<Rightarrow> s)"

definition article_id :: "article \<Rightarrow> ustring" where
  "article_id a =
     (if val (a_article a) \<noteq> [] then
        (let prefix = (if val (a_chapter a) \<noteq> [] then val (a_chapter a) @ ustr '' - ''
                       else if val (a_section a) \<noteq> [] then val (a_section a) @ ustr '' - ''
                       else [])
         in prefix @ val (a_article a))
      else if val (a_chapter a) \<noteq> [] then val (a_chapter a)
      else if val (a_section a) \<noteq> [] then ustr ''Section '' @ val (a_section a)
      else ustr ''Unknown'')"

text \<open>\<^verbatim>\<open>_clauses_of\<close>: the loop over the clauses, with the counter \<^verbatim>\<open>auto_no\<close>.\<close>

fun clauses_of_loop :: "clause list \<Rightarrow> nat \<Rightarrow> (ustring \<times> ustring) list" where
  "clauses_of_loop [] auto_no = []"
| "clauses_of_loop (c # cs) auto_no =
     (if val (no c) = []
      then (str_of_nat auto_no, norm_text (cl_text c)) # clauses_of_loop cs (auto_no + 1)
      else (val (no c), norm_text (cl_text c)) # clauses_of_loop cs auto_no)"

definition clauses_of :: "article \<Rightarrow> (ustring \<times> ustring) list" where
  "clauses_of a = clauses_of_loop (clauses a) 1"

text \<open>
  A Python dictionary keeps its keys in the order of their first insertion, and the loops of
  \<^verbatim>\<open>diff_articles\<close> run over \<^verbatim>\<open>items()\<close> in that order: the index is an association list,
  \<open>dict_set\<close> is \<^verbatim>\<open>m[k] = v\<close> and \<open>map_of\<close> the lookup.
\<close>

type_synonym clause_key = "ustring \<times> ustring"

fun dict_set :: "'k \<Rightarrow> 'v \<Rightarrow> ('k \<times> 'v) list \<Rightarrow> ('k \<times> 'v) list" where
  "dict_set k v [] = [(k, v)]"
| "dict_set k v ((k', v') # m) = (if k' = k then (k', v) # m else (k', v') # dict_set k v m)"

definition index_article ::
  "(clause_key \<times> ustring) list \<Rightarrow> article \<Rightarrow> (clause_key \<times> ustring) list" where
  "index_article m a =
     foldl (\<lambda>m (no, text). dict_set (article_id a, no) text m) m (clauses_of a)"

definition kv_index :: "seg_structure \<Rightarrow> (clause_key \<times> ustring) list" where
  "kv_index struct = foldl index_article [] (articles struct)"

record change_record =
  level :: string
  cr_id :: ustring
  change :: string
  cr_from :: "ustring option"
  cr_to :: "ustring option"

definition key_id :: "clause_key \<Rightarrow> ustring" where
  "key_id k = fst k @ ustr ''.'' @ snd k"

text \<open>The three dictionaries that \<^verbatim>\<open>diff_articles\<close> appends.\<close>

definition rec_added :: "clause_key \<Rightarrow> ustring \<Rightarrow> change_record" where
  "rec_added k v =
     \<lparr>level = ''clause'', cr_id = key_id k, change = ''added'', cr_from = None, cr_to = Some v\<rparr>"

definition rec_modified :: "clause_key \<Rightarrow> ustring \<Rightarrow> ustring \<Rightarrow> change_record" where
  "rec_modified k b v =
     \<lparr>level = ''clause'', cr_id = key_id k, change = ''modified'', cr_from = Some b,
      cr_to = Some v\<rparr>"

definition rec_deleted :: "clause_key \<Rightarrow> ustring \<Rightarrow> change_record" where
  "rec_deleted k v =
     \<lparr>level = ''clause'', cr_id = key_id k, change = ''deleted'', cr_from = Some v,
      cr_to = None\<rparr>"

fun added_modified ::
  "(clause_key \<times> ustring) list \<Rightarrow> (clause_key \<times> ustring) list \<Rightarrow> change_record list" where
  "added_modified base [] = []"
| "added_modified base ((k, v) # items) =
     (case map_of base k of
        None \<Rightarrow> rec_added k v # added_modified base items
      | Some b \<Rightarrow>
          if b \<noteq> v then rec_modified k b v # added_modified base items
          else added_modified base items)"

fun deleted :: "(clause_key \<times> ustring) list \<Rightarrow> (clause_key \<times> ustring) list \<Rightarrow> change_record list"
  where
  "deleted new [] = []"
| "deleted new ((k, v) # items) =
     (case map_of new k of
        None \<Rightarrow> rec_deleted k v # deleted new items
      | Some _ \<Rightarrow> deleted new items)"

definition diff_articles :: "seg_structure \<Rightarrow> seg_structure \<Rightarrow> change_record list" where
  "diff_articles base_struct new_struct =
     (let base = kv_index base_struct; new = kv_index new_struct
      in added_modified base new @ deleted new base)"

text \<open>
  The record of \<^verbatim>\<open>diff(B, A)\<close> that answers a record of \<^verbatim>\<open>diff(A, B)\<close>: \<^verbatim>\<open>from\<close> and \<^verbatim>\<open>to\<close>
  swapped, \<^verbatim>\<open>added\<close> and \<^verbatim>\<open>deleted\<close> exchanged.
\<close>

definition mirror :: "change_record \<Rightarrow> change_record" where
  "mirror r =
     r\<lparr>change := (if change r = ''added'' then ''deleted''
                   else if change r = ''deleted'' then ''added'' else change r),
       cr_from := cr_to r, cr_to := cr_from r\<rparr>"

text \<open>
  The insertions that \<^verbatim>\<open>_kv_index\<close> makes, in order: one entry per clause of each article.
\<close>

definition block :: "article \<Rightarrow> (clause_key \<times> ustring) list" where
  "block a = map (\<lambda>(no, text). ((article_id a, no), text)) (clauses_of a)"

definition entries :: "article list \<Rightarrow> (clause_key \<times> ustring) list" where
  "entries arts = concat (map block arts)"

text \<open>The index as a run of insertions into the empty dictionary.\<close>

definition insert_all :: "('k \<times> 'v) list \<Rightarrow> ('k \<times> 'v) list \<Rightarrow> ('k \<times> 'v) list" where
  "insert_all m kvs = foldl (\<lambda>m (k, v). dict_set k v m) m kvs"

text \<open>A structure that holds only a list of articles, as the differ reads it.\<close>

definition articles_only :: "article list \<Rightarrow> seg_structure" where
  "articles_only arts = result arts None"


section \<open>Concrete inputs\<close>

text \<open>The text \<^verbatim>\<open>"Dieu 1. Title A\nBody A\nDieu 2. Title B\nBody B"\<close> (with diacritics).\<close>

definition two_dieu_text :: ustring where
  "two_dieu_text =
     w_dieu @ ustr '' 1. Title A'' @ [10] @ ustr ''Body A'' @ [10] @
     w_dieu @ ustr '' 2. Title B'' @ [10] @ ustr ''Body B''"

text \<open>A decree and a law with a single article: \<^verbatim>\<open>"NGHI DINH\nDieu 1. A\nB"\<close>, \<^verbatim>\<open>"LUAT\nDieu 1. A\nB"\<close>.\<close>

definition one_dieu :: ustring where
  "one_dieu = [10] @ w_dieu @ ustr '' 1. A'' @ [10] @ ustr ''B''"

definition decree_text :: ustring where
  "decree_text = ustr ''NGH'' @ [7882, 32, 272, 7882] @ ustr ''NH'' @ one_dieu"

definition law_text :: ustring where
  "law_text = ustr ''LU'' @ [7852] @ ustr ''T'' @ one_dieu"

text \<open>The match object of \<^verbatim>\<open>ART_LAW\<close> on \<^verbatim>\<open>Dieu <number>. <title>\<close> from \<open>s\<close> to \<open>e\<close>.\<close>

definition dieu_match :: "nat \<Rightarrow> nat \<Rightarrow> string \<Rightarrow> string \<Rightarrow> rx_match" where
  "dieu_match s e number ttl =
     \<lparr>m_start = s, m_end = e,
      m_groups = [(3, ustr ttl), (1, w_dieu @ [32] @ ustr number), (2, ustr number)]\<rparr>"

text \<open>
  The scenario of the specification: clause \<^verbatim>\<open>(A1, 1)\<close> is \<^verbatim>\<open>"Phi 2 trieu"\<close> in the base and
  \<^verbatim>\<open>"Phi 3 trieu"\<close> in the revision.
\<close>

definition fee :: "string \<Rightarrow> ustring" where
  "fee n = ustr ''Ph'' @ [237, 32] @ ustr n @ ustr '' tri'' @ [7879] @ ustr ''u''"

definition ex_base :: seg_structure where
  "ex_base = articles_only [dict_article (ustr ''A1'') (ustr ''T'') [whole_clause (fee ''2'')]]"

definition ex_revised :: seg_structure where
  "ex_revised = articles_only [dict_article (ustr ''A1'') (ustr ''T'') [whole_clause (fee ''3'')]]"

text \<open>A chapter header alone, \<^verbatim>\<open>"Chuong I. X"\<close>, and a Roman header alone, \<^verbatim>\<open>"I. ABC"\<close>.\<close>

definition chapter_text :: ustring where
  "chapter_text = w_chuong @ ustr '' I. X''"

definition header_text :: ustring where
  "header_text = ustr ''I. ABC''"

text \<open>Metadata of a law: title \<^verbatim>\<open>LUAT\<close>, number \<^verbatim>\<open>01/2020\<close>.\<close>

definition ex_meta :: doc_meta where
  "ex_meta = \<lparr>meta_title = ustr ''LU'' @ [7852] @ ustr ''T'', meta_number = ustr ''01/2020''\<rparr>"

text \<open>
  Three articles with one clause \<^verbatim>\<open>1\<close> each: two carry the same label \<^verbatim>\<open>Dieu 1\<close> (as the
  segmenter labels them when a text repeats a number), the third is \<^verbatim>\<open>Dieu 2\<close>.
\<close>

definition ex_first :: article where
  "ex_first = dict_article (w_dieu @ ustr '' 1'') (ustr ''A'') [whole_clause (ustr ''p'')]"

definition ex_same_label :: article where
  "ex_same_label = dict_article (w_dieu @ ustr '' 1'') (ustr ''B'') [whole_clause (ustr ''q'')]"

definition ex_other_label :: article where
  "ex_other_label = dict_article (w_dieu @ ustr '' 2'') (ustr ''B'') [whole_clause (ustr ''q'')]"


section \<open>Facts for evaluation at concrete inputs\<close>

lemmas text_defs =
  ustr_def is_space_def is_digit_def lower_cp_def upper_cp_def upper_def strip_def slice_def
  str_of_nat.simps

lemmas rx_defs =
  re_finditer_def finditer_from.simps re_search_def re_match_def re_sub_def group_def
  lit_def lit_i_def one_of_def one_of_i_def seqs_def word_def word_i_def opt_def star_def
  plus1_def star_lazy_def any_char_def not_nl_def not_cr_nl_def lower_az_def Let_def

lemmas pattern_defs =
  w_dieu_def w_chuong_def w_CHUONG_def w_phan_def w_PHAN_def w_muc_def w_MUC_def w_tiet_def
  w_TIET_def ART_LAW_def CHAPTER_def structural_word_def next_clause_def next_point_def
  next_structural_def CLAUSE_def POINT_def SUBPOINT_def ROMAN_def two_words_i_def
  DOC_TYPE_PATTERNS_def LINE_CLAUSE_def vn_upper_def header_patterns_def header_keywords_def
  RX_CRLF_def RX_CR_def RX_BLANK_LINES_def RX_SPACES_def RX_WS_def

lemmas segment_defs =
  dict_article_def dict_chapter_def dict_section_def whole_clause_def normalize_text_def
  searches_def meta_matches_def text_matches_def detect_in_meta_def detect_document_type_def parse_sub_points_def
  parse_points_advanced_def close_clause_def parse_clauses_advanced_def clauses_or_whole_def
  span_content_def in_chapter_def is_header_def structured_lines_def save_article_def
  add_content_def full_content_def segment_fallback_advanced_def try_segment_by_chapters_def
  try_segment_by_sections_def try_segment_by_roman_def result_def segment_law_document_def
  segment_decree_document_def segment_circular_document_def segment_generic_document_def
  flag_def check_clause_def validate_segmentation_def segment_def

lemmas example_defs =
  two_dieu_text_def one_dieu_def decree_text_def law_text_def fee_def ex_base_def
  ex_revised_def ex_first_def ex_same_label_def ex_other_label_def ex_meta_def
  chapter_text_def header_text_def

lemmas diff_defs =
  norm_text_def val_def article_id_def clauses_of_def index_article_def kv_index_def
  key_id_def rec_added_def rec_modified_def rec_deleted_def diff_articles_def mirror_def
  articles_only_def


section \<open>Properties\<close>

subsection \<open>Totality of the segmenter\<close>

lemma length_segment_by_dieu: "length (segment_by_dieu text ms) = length ms"
  by (induction ms) (simp_all add: Let_def)

lemma length_segment_by_roman_advanced: "length (segment_by_roman_advanced text ms) = length ms"
  by (induction ms) (simp_all add: Let_def)

lemma segment_by_dieu_empty_iff [simp]: "segment_by_dieu text ms = [] \<longleftrightarrow> ms = []"
  by (cases ms) (simp_all add: Let_def)

lemma segment_by_roman_advanced_empty_iff [simp]:
  "segment_by_roman_advanced text ms = [] \<longleftrightarrow> ms = []"
  by (cases ms) (simp_all add: Let_def)

lemma segment_by_chapters_advanced_nonempty:
  "ms \<noteq> [] \<Longrightarrow> segment_by_chapters_advanced text ms \<noteq> []"
  by (cases ms) (auto simp: Let_def)


lemma segment_fallback_advanced_nonempty: "segment_fallback_advanced text \<noteq> []"
  by (simp add: segment_fallback_advanced_def Let_def split: prod.splits)


lemma articles_result [simp]: "articles (result arts s) = arts"
  by (simp add: result_def)







lemma articles_validation_update [simp]:
  "articles (res\<lparr>validation := v, document_type := d\<rparr>) = articles res"
  by simp



text \<open>
  C10. For the empty input string, \<open>segment\<close> returns no articles and the validation
  \<^verbatim>\<open>{status: "empty", issues: ["Empty document"]}\<close>, without statistics, without a document type
  and without a strategy tag; the status \<^verbatim>\<open>empty\<close> is none of \<^verbatim>\<open>success\<close>, \<^verbatim>\<open>warning\<close>, \<^verbatim>\<open>error\<close>.
\<close>

theorem segment_empty_document:
  "segment [] meta =
     \<lparr>articles = [], strategy_used = None,
      validation = Some \<lparr>status = ''empty'', issues = [Empty_document], stats = None\<rparr>,
      document_type = None\<rparr> \<and>
   ''empty'' \<notin> {''success'', ''warning'', ''error''}"
  by (simp add: segment_def)

subsection \<open>The index is a dictionary\<close>

lemma map_of_dict_set: "map_of (dict_set k v m) = (map_of m)(k \<mapsto> v)"
  by (induction m) auto

lemma keys_dict_set: "fst ` set (dict_set k v m) = insert k (fst ` set m)"
  by (simp add: dom_map_of_conv_image_fst [symmetric] map_of_dict_set)

lemma distinct_dict_set: "distinct (map fst m) \<Longrightarrow> distinct (map fst (dict_set k v m))"
  by (induction m) (auto simp: keys_dict_set split: if_splits)

lemma insert_all_simps [simp]:
  "insert_all m [] = m"
  "insert_all m ((k, v) # kvs) = insert_all (dict_set k v m) kvs"
  by (simp_all add: insert_all_def)

lemma insert_all_append: "insert_all m (xs @ ys) = insert_all (insert_all m xs) ys"
  by (simp add: insert_all_def)

lemma distinct_insert_all: "distinct (map fst m) \<Longrightarrow> distinct (map fst (insert_all m kvs))"
  by (induction kvs arbitrary: m) (auto simp: distinct_dict_set)

lemma map_of_insert_all: "map_of (insert_all m kvs) = map_of (rev kvs @ m)"
proof (induction kvs arbitrary: m)
  case Nil
  show ?case by simp
next
  case (Cons kv kvs)
  obtain k v where kv: "kv = (k, v)" by (cases kv)
  have "map_of (insert_all m (kv # kvs)) = map_of (rev kvs @ dict_set k v m)"
    by (simp add: kv Cons.IH)
  also have "\<dots> = map_of (rev kvs @ (k, v) # m)"
    by (simp add: map_of_append map_of_dict_set)
  finally show ?case by (simp add: kv)
qed

lemma index_article_insert_all: "index_article m a = insert_all m (block a)"
proof -
  have "foldl (\<lambda>m (no, text). dict_set (f no) text m) m xs =
        insert_all m (map (\<lambda>(no, text). (f no, text)) xs)" for f :: "ustring \<Rightarrow> clause_key" and xs m
    by (induction xs arbitrary: m) auto
  then show ?thesis
    by (simp add: index_article_def block_def)
qed

lemma foldl_index_article: "foldl index_article m arts = insert_all m (entries arts)"
  by (induction arts arbitrary: m)
    (simp_all add: entries_def index_article_insert_all insert_all_append)

lemma kv_index_entries: "kv_index S = insert_all [] (entries (articles S))"
  by (simp add: kv_index_def foldl_index_article)

lemma distinct_kv_index: "distinct (map fst (kv_index S))"
  by (simp add: kv_index_entries distinct_insert_all)

lemma kv_index_member: "(k, v) \<in> set (kv_index S) \<longleftrightarrow> map_of (kv_index S) k = Some v"
  by (simp add: distinct_kv_index)

lemma map_of_kv_index: "map_of (kv_index S) = map_of (rev (entries (articles S)))"
  by (simp add: kv_index_entries map_of_insert_all)

subsection \<open>The records of a diff\<close>

lemma added_modified_iff:
  "r \<in> set (added_modified base items) \<longleftrightarrow>
   (\<exists>p \<in> set items.
      map_of base (fst p) = None \<and> r = rec_added (fst p) (snd p) \<or>
      (\<exists>b. map_of base (fst p) = Some b \<and> b \<noteq> snd p \<and> r = rec_modified (fst p) b (snd p)))"
  by (induction items) (auto split: option.splits if_splits)

lemma deleted_iff:
  "r \<in> set (deleted new items) \<longleftrightarrow>
   (\<exists>p \<in> set items. map_of new (fst p) = None \<and> r = rec_deleted (fst p) (snd p))"
  by (induction items) (auto split: option.splits)

lemma diff_addedI:
  assumes "map_of (kv_index A) k = None" and "map_of (kv_index B) k = Some v"
  shows "rec_added k v \<in> set (diff_articles A B)"
proof -
  have "(k, v) \<in> set (kv_index B)"
    using assms(2) by (simp add: kv_index_member)
  then have "rec_added k v \<in> set (added_modified (kv_index A) (kv_index B))"
    unfolding added_modified_iff using assms(1) by (intro bexI [of _ "(k, v)"]) simp_all
  then show ?thesis
    by (simp add: diff_articles_def Let_def)
qed

lemma diff_modifiedI:
  assumes "map_of (kv_index A) k = Some b" and "map_of (kv_index B) k = Some v" and "b \<noteq> v"
  shows "rec_modified k b v \<in> set (diff_articles A B)"
proof -
  have "(k, v) \<in> set (kv_index B)"
    using assms(2) by (simp add: kv_index_member)
  then have "rec_modified k b v \<in> set (added_modified (kv_index A) (kv_index B))"
    unfolding added_modified_iff using assms(1,3) by (intro bexI [of _ "(k, v)"]) simp_all
  then show ?thesis
    by (simp add: diff_articles_def Let_def)
qed

lemma diff_deletedI:
  assumes "map_of (kv_index A) k = Some b" and "map_of (kv_index B) k = None"
  shows "rec_deleted k b \<in> set (diff_articles A B)"
proof -
  have "(k, b) \<in> set (kv_index A)"
    using assms(1) by (simp add: kv_index_member)
  then have "rec_deleted k b \<in> set (deleted (kv_index B) (kv_index A))"
    unfolding deleted_iff using assms(2) by (intro bexI [of _ "(k, b)"]) simp_all
  then show ?thesis
    by (simp add: diff_articles_def Let_def)
qed

lemma diff_articles_cases:
  assumes "r \<in> set (diff_articles A B)"
  obtains
    (added) k v where "map_of (kv_index A) k = None" "map_of (kv_index B) k = Some v"
      "r = rec_added k v"
  | (modified) k b v where "map_of (kv_index A) k = Some b" "map_of (kv_index B) k = Some v"
      "b \<noteq> v" "r = rec_modified k b v"
  | (deleted) k b where "map_of (kv_index A) k = Some b" "map_of (kv_index B) k = None"
      "r = rec_deleted k b"
proof -
  from assms consider
    (am) "r \<in> set (added_modified (kv_index A) (kv_index B))"
    | (del) "r \<in> set (deleted (kv_index B) (kv_index A))"
    by (auto simp: diff_articles_def Let_def)
  then show thesis
  proof cases
    case am
    then obtain p where p: "p \<in> set (kv_index B)"
      and alt: "map_of (kv_index A) (fst p) = None \<and> r = rec_added (fst p) (snd p) \<or>
        (\<exists>b. map_of (kv_index A) (fst p) = Some b \<and> b \<noteq> snd p \<and>
             r = rec_modified (fst p) b (snd p))"
      unfolding added_modified_iff by blast
    from p have look: "map_of (kv_index B) (fst p) = Some (snd p)"
      using kv_index_member [of "fst p" "snd p" B] by simp
    from alt show thesis
    proof
      assume "map_of (kv_index A) (fst p) = None \<and> r = rec_added (fst p) (snd p)"
      with look show thesis by (intro added [of "fst p" "snd p"]) simp_all
    next
      assume "\<exists>b. map_of (kv_index A) (fst p) = Some b \<and> b \<noteq> snd p \<and>
             r = rec_modified (fst p) b (snd p)"
      then obtain b where "map_of (kv_index A) (fst p) = Some b" "b \<noteq> snd p"
        "r = rec_modified (fst p) b (snd p)" by blast
      with look show thesis by (intro modified [of "fst p" b "snd p"]) simp_all
    qed
  next
    case del
    then obtain p where p: "p \<in> set (kv_index A)"
      and none: "map_of (kv_index B) (fst p) = None" and r: "r = rec_deleted (fst p) (snd p)"
      unfolding deleted_iff by blast
    from p have "map_of (kv_index A) (fst p) = Some (snd p)"
      using kv_index_member [of "fst p" "snd p" A] by simp
    with none r show thesis by (intro deleted [of "fst p" "snd p"]) simp_all
  qed
qed

lemma mirror_simps:
  "mirror (rec_added k v) = rec_deleted k v"
  "mirror (rec_deleted k v) = rec_added k v"
  "mirror (rec_modified k b v) = rec_modified k v b"
  by (simp_all add: mirror_def rec_added_def rec_deleted_def rec_modified_def)

text \<open>
  C5. Diffing a structure against itself returns the empty sequence of change records.
\<close>

theorem diff_identity: "diff_articles S S = []"
proof -
  have "r \<notin> set (diff_articles S S)" for r
  proof
    assume "r \<in> set (diff_articles S S)"
    then show False by (cases rule: diff_articles_cases) simp_all
  qed
  then show ?thesis
    by (cases "diff_articles S S") auto
qed

text \<open>
  C6. Every record of \<open>diff_articles A B\<close> appears mirrored in \<open>diff_articles B A\<close>: an added
  record as the deleted record with \<open>from\<close> and \<open>to\<close> swapped, a deleted record as the added
  one, a modified record as the modified record with \<open>from\<close> and \<open>to\<close> swapped; the identifier
  and the level stay. (Vice versa is the same statement with \<open>A\<close> and \<open>B\<close> exchanged.)
\<close>

theorem diff_symmetry:
  "r \<in> set (diff_articles A B) \<Longrightarrow>
   mirror r \<in> set (diff_articles B A) \<and>
   (change r = ''added'' \<longrightarrow> change (mirror r) = ''deleted'') \<and>
   (change r = ''deleted'' \<longrightarrow> change (mirror r) = ''added'') \<and>
   (change r = ''modified'' \<longrightarrow> change (mirror r) = ''modified'') \<and>
   cr_from (mirror r) = cr_to r \<and> cr_to (mirror r) = cr_from r \<and>
   cr_id (mirror r) = cr_id r \<and> level (mirror r) = level r"
proof -
  assume "r \<in> set (diff_articles A B)"
  then have "mirror r \<in> set (diff_articles B A)"
  proof (cases rule: diff_articles_cases)
    case (added k v)
    then show ?thesis by (simp add: mirror_simps diff_deletedI)
  next
    case (modified k b v)
    then show ?thesis by (simp add: mirror_simps diff_modifiedI)
  next
    case (deleted k b)
    then show ?thesis by (simp add: mirror_simps diff_addedI)
  qed
  then show ?thesis
    by (simp add: mirror_def)
qed

text \<open>The scenario of the specification, in both directions.\<close>

theorem diff_symmetry_witness:
  "rec_modified (ustr ''A1'', ustr ''1'') (fee ''2'') (fee ''3'') \<in> set (diff_articles ex_base ex_revised) \<and>
   rec_modified (ustr ''A1'', ustr ''1'') (fee ''3'') (fee ''2'') \<in> set (diff_articles ex_revised ex_base)"
proof -
  have d: "diff_articles ex_base ex_revised =
      [rec_modified (ustr ''A1'', ustr ''1'') (fee ''2'') (fee ''3'')]"
    by (simp add: example_defs diff_defs segment_defs text_defs rx_defs pattern_defs)
  then have h: "rec_modified (ustr ''A1'', ustr ''1'') (fee ''2'') (fee ''3'')
      \<in> set (diff_articles ex_base ex_revised)"
    by simp
  show ?thesis
    using diff_symmetry [OF h] h by (simp add: mirror_simps)
qed

subsection \<open>Composite keys\<close>

lemma clauses_of_loop_ordinals:
  "map no cs' = map no cs \<Longrightarrow>
   map fst (clauses_of_loop cs' n) = map fst (clauses_of_loop cs n)"
proof (induction cs arbitrary: cs' n)
  case Nil
  then show ?case by simp
next
  case (Cons c cs)
  then obtain c' cs'' where cs': "cs' = c' # cs''" and c': "no c' = no c"
    and rest: "map no cs'' = map no cs"
    by (cases cs') auto
  show ?case
    by (simp add: cs' c' Cons.IH [OF rest])
qed

lemma keys_block: "map fst (block a) = map (\<lambda>n. (article_id a, n)) (map fst (clauses_of a))"
  by (simp add: block_def case_prod_unfold comp_def)

lemma entries_append: "entries (xs @ ys) = entries xs @ entries ys"
  by (simp add: entries_def)

lemma entries_Cons: "entries (a # arts) = block a @ entries arts"
  by (simp add: entries_def)

lemma lookup_outside_block:
  assumes "map fst Y = map fst Y'" and "k \<notin> set (map fst Y)"
  shows "map_of (rev (X @ Y @ Z)) k = map_of (rev (X @ Y' @ Z)) k"
proof -
  have "set (map fst Y') = set (map fst Y)"
    using assms(1) by simp
  with assms(2) have "k \<notin> fst ` set (rev Y)" and "k \<notin> fst ` set (rev Y')"
    by auto
  then have "map_of (rev Y) k = None" and "map_of (rev Y') k = None"
    by (simp_all add: map_of_eq_None_iff)
  then show ?thesis
    by (simp add: map_of_append map_add_def split: option.splits)
qed

lemma lookup_None_same_keys:
  assumes "map fst E = map fst E'"
  shows "map_of (rev E) k = None \<longleftrightarrow> map_of (rev E') k = None"
proof -
  have "fst ` set (rev E) = fst ` set (rev E')"
    using arg_cong [OF assms, of set] by simp
  then show ?thesis
    by (simp add: map_of_eq_None_iff)
qed

lemma entries_update:
  "i < length arts \<Longrightarrow>
   entries (arts[i := a]) = entries (take i arts) @ block a @ entries (drop (Suc i) arts)"
  by (simp add: upd_conv_take_nth_drop entries_append entries_Cons)

lemma entries_nth:
  "i < length arts \<Longrightarrow>
   entries arts = entries (take i arts) @ block (arts ! i) @ entries (drop (Suc i) arts)"
  using entries_update [of i arts "arts ! i"] by simp

text \<open>
  C7, as amended. Take two articles of a structure whose article identifiers differ, and
  change the clause texts of the first one (its ordinals stay). Then every change record of
  the diff is a modified record of a clause \<open>n\<close> of the first article, with the identifier
  \<open>article_id @ ''.'' @ n\<close> of that article, which is not the identifier that clause \<open>n\<close> of
  the second article has: no record is attributed to the second article.
\<close>

theorem composite_key_isolation:
  assumes i: "i < length (articles S)" and j: "j < length (articles S)"
    and ids: "article_id (articles S ! i) \<noteq> article_id (articles S ! j)"
    and ordinals: "map no cs' = map no (clauses (articles S ! i))"
    and r: "r \<in> set (diff_articles S
               (S\<lparr>articles := (articles S)[i := (articles S ! i)\<lparr>clauses := cs'\<rparr>]\<rparr>))"
  shows "change r = ''modified'' \<and>
         (\<exists>n \<in> set (map fst (clauses_of (articles S ! i))).
            cr_id r = article_id (articles S ! i) @ ustr ''.'' @ n \<and>
            cr_id r \<noteq> article_id (articles S ! j) @ ustr ''.'' @ n)"
proof -
  let ?arts = "articles S"
  let ?a = "?arts ! i"
  let ?a' = "?a\<lparr>clauses := cs'\<rparr>"
  let ?S' = "S\<lparr>articles := ?arts[i := ?a']\<rparr>"
  let ?X = "entries (take i ?arts)"
  let ?Z = "entries (drop (Suc i) ?arts)"
  have id': "article_id ?a' = article_id ?a"
    by (simp add: article_id_def)
  have "map fst (clauses_of ?a') = map fst (clauses_of ?a)"
    using clauses_of_loop_ordinals [OF ordinals, of 1] by (simp add: clauses_of_def)
  then have keys: "map fst (block ?a) = map fst (block ?a')"
    by (simp only: keys_block id')
  have A: "entries ?arts = ?X @ block ?a @ ?Z"
    using i by (rule entries_nth)
  have B: "entries (articles ?S') = ?X @ block ?a' @ ?Z"
    using i by (simp add: entries_update)
  have same_keys: "map fst (entries ?arts) = map fst (entries (articles ?S'))"
    unfolding A B using keys by simp
  have none_iff: "map_of (kv_index S) k = None \<longleftrightarrow> map_of (kv_index ?S') k = None" for k
    unfolding map_of_kv_index by (rule lookup_None_same_keys [OF same_keys])
  have outside: "map_of (kv_index S) k = map_of (kv_index ?S') k"
    if "k \<notin> set (map fst (block ?a))" for k
    unfolding map_of_kv_index A B by (rule lookup_outside_block [OF keys that])
  from r show ?thesis
  proof (cases rule: diff_articles_cases)
    case (added k v)
    with none_iff [of k] show ?thesis by simp
  next
    case (deleted k b)
    with none_iff [of k] show ?thesis by simp
  next
    case (modified k b v)
    then have "map_of (kv_index S) k \<noteq> map_of (kv_index ?S') k"
      by simp
    with outside have "k \<in> set (map fst (block ?a))"
      by blast
    then obtain n where n: "n \<in> set (map fst (clauses_of ?a))" and k: "k = (article_id ?a, n)"
      unfolding keys_block by auto
    have c1: "cr_id r = article_id ?a @ ustr ''.'' @ n"
      by (simp add: modified(4) k rec_modified_def key_id_def)
    have c2: "change r = ''modified''"
      by (simp add: modified(4) rec_modified_def)
    have c3: "cr_id r \<noteq> article_id (?arts ! j) @ ustr ''.'' @ n"
      unfolding c1 using ids by simp
    show ?thesis
      using n c1 c2 c3 by (intro conjI bexI [of _ n])
  qed
qed

text \<open>Changing the clause of \<^verbatim>\<open>Dieu 1\<close> next to an article \<^verbatim>\<open>Dieu 2\<close>.\<close>

theorem composite_key_isolation_witness:
  "rec_modified (article_id ex_first, ustr ''1'') (ustr ''p'') (ustr ''r'')
     \<in> set (diff_articles (articles_only [ex_first, ex_other_label])
          (articles_only [ex_first\<lparr>clauses := [whole_clause (ustr ''r'')]\<rparr>, ex_other_label])) \<and>
   cr_id (rec_modified (article_id ex_first, ustr ''1'') (ustr ''p'') (ustr ''r'')) \<noteq>
     article_id ex_other_label @ ustr ''.1''"
proof -
  let ?S = "articles_only [ex_first, ex_other_label]"
  let ?r = "rec_modified (article_id ex_first, ustr ''1'') (ustr ''p'') (ustr ''r'')"
  have i: "0 < length (articles ?S)" and j: "1 < length (articles ?S)"
    by (simp_all add: articles_only_def)
  have ids: "article_id (articles ?S ! 0) \<noteq> article_id (articles ?S ! 1)"
    by (simp add: example_defs diff_defs segment_defs text_defs pattern_defs)
  have ordinals: "map no [whole_clause (ustr ''r'')] = map no (clauses (articles ?S ! 0))"
    by (simp add: example_defs articles_only_def segment_defs)
  have upd: "?S\<lparr>articles := (articles ?S)[0 := (articles ?S ! 0)\<lparr>clauses := [whole_clause (ustr ''r'')]\<rparr>]\<rparr> =
      articles_only [ex_first\<lparr>clauses := [whole_clause (ustr ''r'')]\<rparr>, ex_other_label]"
    by (simp add: articles_only_def result_def)
  have r: "?r \<in> set (diff_articles ?S
      (?S\<lparr>articles := (articles ?S)[0 := (articles ?S ! 0)\<lparr>clauses := [whole_clause (ustr ''r'')]\<rparr>]\<rparr>))"
    unfolding upd
    by (simp add: example_defs diff_defs segment_defs text_defs rx_defs pattern_defs)
  have cl: "map fst (clauses_of (articles ?S ! 0)) = [ustr ''1'']"
    by (simp add: example_defs diff_defs segment_defs text_defs rx_defs pattern_defs)
  have second: "articles ?S ! 1 = ex_other_label"
    by (simp add: articles_only_def)
  show ?thesis
    using composite_key_isolation [OF i j ids ordinals r] r ids
    unfolding upd cl second by (simp add: ustr_def)
qed

text \<open>
  C7 as stated fails for two distinct articles that carry the same label: both have the
  identifier \<^verbatim>\<open>Dieu 1\<close>, their clauses \<^verbatim>\<open>1\<close> share one key, and the index keeps the clause of
  the later article. Changing the clause of the second article gives a record whose
  identifier is that of clause \<^verbatim>\<open>1\<close> of the first article; changing the clause of the first
  article gives no record at all; and adding the second article to a structure that holds
  the first one reports the unchanged clause of the first article as modified, from its own
  text to the text of the other article.
\<close>

theorem composite_key_counterexample:
  "ex_first \<noteq> ex_same_label \<and>
   diff_articles (articles_only [ex_first, ex_same_label])
     (articles_only [ex_first, ex_same_label\<lparr>clauses := [whole_clause (ustr ''r'')]\<rparr>]) =
     [rec_modified (article_id ex_first, ustr ''1'') (ustr ''q'') (ustr ''r'')] \<and>
   cr_id (rec_modified (article_id ex_first, ustr ''1'') (ustr ''q'') (ustr ''r'')) =
     article_id ex_first @ ustr ''.1'' \<and>
   diff_articles (articles_only [ex_first, ex_same_label])
     (articles_only [ex_first\<lparr>clauses := [whole_clause (ustr ''z'')]\<rparr>, ex_same_label]) = [] \<and>
   diff_articles (articles_only [ex_first]) (articles_only [ex_first, ex_same_label]) =
     [rec_modified (article_id ex_first, ustr ''1'') (ustr ''p'') (ustr ''q'')]"
  by (simp add: example_defs diff_defs segment_defs text_defs rx_defs pattern_defs)

subsection \<open>Validation\<close>

lemma foldl_check_clause:
  "issues (foldl check_clause v cs) =
     issues v @ map (\<lambda>c. Very_long_clause (length (cl_text c)))
                  (filter (\<lambda>c. length (cl_text c) > 2000) cs) \<and>
   status (foldl check_clause v cs) =
     (if filter (\<lambda>c. length (cl_text c) > 2000) cs = [] then status v else ''warning'') \<and>
   stats (foldl check_clause v cs) = stats v"
  by (induction cs arbitrary: v) (simp_all add: check_clause_def flag_def)

text \<open>
  C3. The validation of a structure records the preservation ratio (segmented length over
  original length, \<open>0\<close> for an empty original) and raises exactly these issues, in this order:
  low content preservation iff the ratio is below \<open>7/10\<close>, content duplication iff it is above
  \<open>13/10\<close>, no articles found iff the article list is empty, and one very long clause issue
  for each clause whose text is longer than 2000 characters. The status is \<^verbatim>\<open>error\<close> if there
  is no article, else \<^verbatim>\<open>warning\<close> if any issue was raised, else \<^verbatim>\<open>success\<close>.
\<close>

theorem validation_rules:
  "\<exists>st. stats (validate_segmentation original_text res n) = Some st \<and>
     original_length st = n \<and>
     segmented_length st =
       sum_list (map (\<lambda>c. length (cl_text c)) (concat (map clauses (articles res)))) \<and>
     preservation_ratio st =
       (if n > 0 then of_nat (segmented_length st) / of_nat n else 0) \<and>
     issues (validate_segmentation original_text res n) =
       (if preservation_ratio st < 7 / 10
        then [Low_content_preservation (preservation_ratio st)] else []) @
       (if preservation_ratio st > 13 / 10
        then [Content_duplication (preservation_ratio st)] else []) @
       (if articles res = [] then [No_articles_found] else []) @
       map (\<lambda>c. Very_long_clause (length (cl_text c)))
         (filter (\<lambda>c. length (cl_text c) > 2000) (concat (map clauses (articles res)))) \<and>
     status (validate_segmentation original_text res n) =
       (if articles res = [] then ''error''
        else if issues (validate_segmentation original_text res n) \<noteq> [] then ''warning''
        else ''success'')"
proof -
  have seg: "sum_list (map (\<lambda>a. sum_list (map (\<lambda>c. length (cl_text c)) (clauses a))) arts) =
      sum_list (map (\<lambda>c. length (cl_text c)) (concat (map clauses arts)))" for arts
    by (induction arts) simp_all
  show ?thesis
    unfolding validate_segmentation_def Let_def
    by (cases "articles res = []")
      (simp_all add: foldl_check_clause flag_def seg)
qed

subsection \<open>The classifier\<close>

lemma first_type_first:
  "i < length ps \<Longrightarrow> found (snd (ps ! i)) \<Longrightarrow> \<forall>j<i. \<not> found (snd (ps ! j)) \<Longrightarrow>
   first_type found ps = Some (fst (ps ! i))"
proof (induction ps arbitrary: i)
  case Nil
  then show ?case by simp
next
  case (Cons x ps)
  obtain t p where x: "x = (t, p)" by (cases x)
  show ?case
  proof (cases i)
    case 0
    with Cons.prems show ?thesis by (simp add: x)
  next
    case (Suc k)
    with Cons.prems have "\<not> found p" and "k < length ps" and "found (snd (ps ! k))"
      and "\<forall>j<k. \<not> found (snd (ps ! j))"
      by (auto simp: x)
    with Cons.IH [of k] show ?thesis by (simp add: x Suc)
  qed
qed

lemma first_type_none: "\<forall>q \<in> set ps. \<not> found (snd q) \<Longrightarrow> first_type found ps = None"
  by (induction ps) auto

lemma first_type_in: "first_type found ps = Some t \<Longrightarrow> t \<in> fst ` set ps"
  by (induction ps) (auto split: if_splits)

lemma text_matches_prefix: "text_matches (take 1000 text) = text_matches text"
  by (simp add: text_matches_def fun_eq_iff)

text \<open>
  C9. The classifier is a total function into the seven document types, and it reads the
  text only through its first 1000 characters. With metadata, the first pattern of
  \<open>DOC_TYPE_PATTERNS\<close> that matches the title or the number decides; when there is no
  metadata or no pattern matches it, the first pattern that matches the text prefix decides;
  when nothing matches, the type is \<^verbatim>\<open>generic\<close>.
\<close>

theorem detect_document_type_first_match:
  "detect_document_type text meta \<in>
     {''law'', ''decree'', ''circular'', ''decision'', ''directive'', ''instruction'', ''generic''} \<and>
   detect_document_type text meta = detect_document_type (take 1000 text) meta \<and>
   (meta = Some d \<and> i < length DOC_TYPE_PATTERNS \<and>
    meta_matches d (snd (DOC_TYPE_PATTERNS ! i)) \<and>
    (\<forall>j<i. \<not> meta_matches d (snd (DOC_TYPE_PATTERNS ! j))) \<longrightarrow>
    detect_document_type text meta = fst (DOC_TYPE_PATTERNS ! i)) \<and>
   ((meta = None \<or> meta = Some d \<and> (\<forall>q \<in> set DOC_TYPE_PATTERNS. \<not> meta_matches d (snd q))) \<and>
    i < length DOC_TYPE_PATTERNS \<and>
    text_matches text (snd (DOC_TYPE_PATTERNS ! i)) \<and>
    (\<forall>j<i. \<not> text_matches text (snd (DOC_TYPE_PATTERNS ! j))) \<longrightarrow>
    detect_document_type text meta = fst (DOC_TYPE_PATTERNS ! i)) \<and>
   ((meta = None \<or> meta = Some d \<and> (\<forall>q \<in> set DOC_TYPE_PATTERNS. \<not> meta_matches d (snd q))) \<and>
    (\<forall>q \<in> set DOC_TYPE_PATTERNS. \<not> text_matches text (snd q)) \<longrightarrow>
    detect_document_type text meta = ''generic'')"
proof -
  have types: "fst ` set DOC_TYPE_PATTERNS =
      {''law'', ''decree'', ''circular'', ''decision'', ''directive'', ''instruction''}"
    by (simp add: DOC_TYPE_PATTERNS_def)
  have in_types: "t \<in> fst ` set DOC_TYPE_PATTERNS"
    if "first_type found DOC_TYPE_PATTERNS = Some t" for found t
    using that by (rule first_type_in)
  have "detect_document_type text meta \<in> insert ''generic'' (fst ` set DOC_TYPE_PATTERNS)"
  proof (cases "detect_in_meta meta")
    case None
    then show ?thesis
      by (cases "first_type (text_matches text) DOC_TYPE_PATTERNS")
        (simp_all add: detect_document_type_def in_types)
  next
    case (Some t)
    then obtain d' where "first_type (meta_matches d') DOC_TYPE_PATTERNS = Some t"
      by (cases meta) (simp_all add: detect_in_meta_def)
    then have "t \<in> fst ` set DOC_TYPE_PATTERNS"
      by (rule in_types)
    with Some show ?thesis
      by (simp add: detect_document_type_def)
  qed
  then have range: "detect_document_type text meta \<in>
     {''law'', ''decree'', ''circular'', ''decision'', ''directive'', ''instruction'', ''generic''}"
    unfolding types by blast
  have prefix: "detect_document_type text meta = detect_document_type (take 1000 text) meta"
    unfolding detect_document_type_def text_matches_prefix by (rule refl)
  have by_meta: "detect_document_type text meta = fst (DOC_TYPE_PATTERNS ! i)"
    if "meta = Some d" "i < length DOC_TYPE_PATTERNS"
      "meta_matches d (snd (DOC_TYPE_PATTERNS ! i))"
      "\<forall>j<i. \<not> meta_matches d (snd (DOC_TYPE_PATTERNS ! j))"
    using first_type_first [OF that(2), of "meta_matches d"] that
    by (simp add: detect_document_type_def detect_in_meta_def)
  have no_meta: "detect_in_meta meta = None"
    if "meta = None \<or> meta = Some d \<and> (\<forall>q \<in> set DOC_TYPE_PATTERNS. \<not> meta_matches d (snd q))"
    using that first_type_none [of DOC_TYPE_PATTERNS "meta_matches d"]
    by (auto simp: detect_in_meta_def)
  have by_text: "detect_document_type text meta = fst (DOC_TYPE_PATTERNS ! i)"
    if "meta = None \<or> meta = Some d \<and> (\<forall>q \<in> set DOC_TYPE_PATTERNS. \<not> meta_matches d (snd q))"
      "i < length DOC_TYPE_PATTERNS" "text_matches text (snd (DOC_TYPE_PATTERNS ! i))"
      "\<forall>j<i. \<not> text_matches text (snd (DOC_TYPE_PATTERNS ! j))"
    using first_type_first [OF that(2), of "text_matches text"] that(3,4) no_meta [OF that(1)]
    by (simp add: detect_document_type_def)
  have generic: "detect_document_type text meta = ''generic''"
    if "meta = None \<or> meta = Some d \<and> (\<forall>q \<in> set DOC_TYPE_PATTERNS. \<not> meta_matches d (snd q))"
      "\<forall>q \<in> set DOC_TYPE_PATTERNS. \<not> text_matches text (snd q)"
    using first_type_none [of DOC_TYPE_PATTERNS "text_matches text"] that(2) no_meta [OF that(1)]
    by (simp add: detect_document_type_def)
  show ?thesis
    using range prefix by_meta by_text generic by blast
qed

text \<open>
  A decree filed under the metadata of a law is a law; without metadata it is a decree; the
  two-article text without any keyword is generic.
\<close>

theorem detect_document_type_first_match_witness:
  "detect_document_type decree_text (Some ex_meta) = ''law'' \<and>
   detect_document_type decree_text None = ''decree'' \<and>
   detect_document_type two_dieu_text None = ''generic''"
proof -
  have len: "length DOC_TYPE_PATTERNS = 6"
    and fst0: "fst (DOC_TYPE_PATTERNS ! 0) = ''law''"
    and fst1: "fst (DOC_TYPE_PATTERNS ! 1) = ''decree''"
    by (simp_all add: DOC_TYPE_PATTERNS_def)
  have a: "meta_matches ex_meta (snd (DOC_TYPE_PATTERNS ! 0))"
    by (simp add: example_defs meta_matches_def searches_def text_defs rx_defs pattern_defs)
  have b0: "\<not> text_matches decree_text (snd (DOC_TYPE_PATTERNS ! 0))"
    by (simp add: example_defs text_matches_def searches_def text_defs rx_defs pattern_defs)
  have b1: "text_matches decree_text (snd (DOC_TYPE_PATTERNS ! 1))"
    by (simp add: example_defs text_matches_def searches_def text_defs rx_defs pattern_defs)
  have c: "\<forall>q \<in> set DOC_TYPE_PATTERNS. \<not> text_matches two_dieu_text (snd q)"
    by (simp add: example_defs text_matches_def searches_def text_defs rx_defs pattern_defs)
  have fst1': "fst (DOC_TYPE_PATTERNS ! Suc 0) = ''decree''"
    using fst1 by simp
  note by_meta = detect_document_type_first_match
    [of decree_text "Some ex_meta" ex_meta 0, THEN conjunct2, THEN conjunct2, THEN conjunct1]
  note by_text = detect_document_type_first_match
    [of decree_text None ex_meta 1, THEN conjunct2, THEN conjunct2, THEN conjunct2,
      THEN conjunct1]
  note default = detect_document_type_first_match
    [of two_dieu_text None ex_meta 0, THEN conjunct2, THEN conjunct2, THEN conjunct2,
      THEN conjunct2]
  have "detect_document_type decree_text (Some ex_meta) = ''law''"
    using by_meta a by (simp add: len fst0)
  moreover have "detect_document_type decree_text None = ''decree''"
    using by_text b0 b1 by (simp add: len fst1')
  moreover have "detect_document_type two_dieu_text None = ''generic''"
    using default c by simp
  ultimately show ?thesis
    by simp
qed

subsection \<open>Evaluation at the concrete texts\<close>

lemma examples_nonempty: "two_dieu_text \<noteq> []" "decree_text \<noteq> []" "law_text \<noteq> []"
  by (simp_all add: example_defs ustr_def)

lemma normalize_two_dieu: "normalize_text two_dieu_text = two_dieu_text"
  by (simp add: example_defs normalize_text_def text_defs rx_defs pattern_defs)

lemma normalize_decree: "normalize_text decree_text = decree_text"
  by (simp add: example_defs normalize_text_def text_defs rx_defs pattern_defs)

lemma normalize_law: "normalize_text law_text = law_text"
  by (simp add: example_defs normalize_text_def text_defs rx_defs pattern_defs)

lemma two_dieu_no_keyword:
  "\<forall>q \<in> set DOC_TYPE_PATTERNS. \<not> text_matches two_dieu_text (snd q)"
  by (simp add: example_defs text_matches_def searches_def text_defs rx_defs pattern_defs)

lemma decree_keyword:
  "\<not> text_matches decree_text (snd (DOC_TYPE_PATTERNS ! 0))"
  "text_matches decree_text (snd (DOC_TYPE_PATTERNS ! 1))"
  by (simp_all add: example_defs text_matches_def searches_def text_defs rx_defs pattern_defs)

lemma law_keyword: "text_matches law_text (snd (DOC_TYPE_PATTERNS ! 0))"
  by (simp add: example_defs text_matches_def searches_def text_defs rx_defs pattern_defs)

lemma detect_two_dieu: "detect_document_type two_dieu_text None = ''generic''"
  using first_type_none [OF two_dieu_no_keyword]
  by (simp add: detect_document_type_def detect_in_meta_def)

lemma detect_decree: "detect_document_type decree_text None = ''decree''"
  using first_type_first [of 1 DOC_TYPE_PATTERNS "text_matches decree_text"] decree_keyword
  by (simp add: detect_document_type_def detect_in_meta_def DOC_TYPE_PATTERNS_def)

lemma detect_law: "detect_document_type law_text None = ''law''"
  using first_type_first [of 0 DOC_TYPE_PATTERNS "text_matches law_text"] law_keyword
  by (simp add: detect_document_type_def detect_in_meta_def DOC_TYPE_PATTERNS_def)

lemma matches_two_dieu:
  "re_finditer ART_LAW two_dieu_text =
     [dieu_match 0 15 ''1'' ''Title A'', dieu_match 23 38 ''2'' ''Title B'']"
  by (simp add: example_defs dieu_match_def text_defs rx_defs pattern_defs)

lemma matches_decree: "re_finditer ART_LAW decree_text = [dieu_match 10 19 ''1'' ''A'']"
  by (simp add: example_defs dieu_match_def text_defs rx_defs pattern_defs)

lemma matches_law: "re_finditer ART_LAW law_text = [dieu_match 5 14 ''1'' ''A'']"
  by (simp add: example_defs dieu_match_def text_defs rx_defs pattern_defs)

lemma chapters_law: "re_finditer CHAPTER law_text = []"
  by (simp add: example_defs text_defs rx_defs pattern_defs)

lemma plain_clause:
  "clauses_or_whole (ustr ''Body A'') = [whole_clause (ustr ''Body A'')]"
  "clauses_or_whole (ustr ''Body B'') = [whole_clause (ustr ''Body B'')]"
  "clauses_or_whole (ustr ''B'') = [whole_clause (ustr ''B'')]"
  by (simp_all add: clauses_or_whole_def parse_clauses_advanced_def close_clause_def
      parse_points_advanced_def whole_clause_def text_defs rx_defs pattern_defs)

lemma spans:
  "span_content two_dieu_text (dieu_match 0 15 ''1'' ''Title A'')
     [dieu_match 23 38 ''2'' ''Title B''] = ustr ''Body A''"
  "span_content two_dieu_text (dieu_match 23 38 ''2'' ''Title B'') [] = ustr ''Body B''"
  "span_content decree_text (dieu_match 10 19 ''1'' ''A'') [] = ustr ''B''"
  "span_content law_text (dieu_match 5 14 ''1'' ''A'') [] = ustr ''B''"
  by (simp_all add: span_content_def dieu_match_def example_defs text_defs w_dieu_def)

lemma dieu_match_groups:
  "group (dieu_match s e number ttl) 2 = ustr number"
  "strip (group (dieu_match s e ''1'' ''Title A'') 3) = ustr ''Title A''"
  "strip (group (dieu_match s e ''2'' ''Title B'') 3) = ustr ''Title B''"
  "strip (group (dieu_match s e ''1'' ''A'') 3) = ustr ''A''"
  by (simp_all add: group_def dieu_match_def text_defs)

lemma labels: "32 # ustr ''1'' = ustr '' 1''" "32 # ustr ''2'' = ustr '' 2''"
  by (simp_all add: ustr_def)

lemma by_dieu_two_dieu:
  "segment_by_dieu two_dieu_text (re_finditer ART_LAW two_dieu_text) =
     [dict_article (w_dieu @ ustr '' 1'') (ustr ''Title A'') [whole_clause (ustr ''Body A'')],
      dict_article (w_dieu @ ustr '' 2'') (ustr ''Title B'') [whole_clause (ustr ''Body B'')]]"
  by (simp add: matches_two_dieu spans plain_clause dieu_match_groups labels)

lemma by_dieu_decree:
  "segment_by_dieu decree_text (re_finditer ART_LAW decree_text) =
     [dict_article (w_dieu @ ustr '' 1'') (ustr ''A'') [whole_clause (ustr ''B'')]]"
  by (simp add: matches_decree spans plain_clause dieu_match_groups labels)

lemma by_dieu_law:
  "segment_by_dieu law_text (re_finditer ART_LAW law_text) =
     [dict_article (w_dieu @ ustr '' 1'') (ustr ''A'') [whole_clause (ustr ''B'')]]"
  by (simp add: matches_law spans plain_clause dieu_match_groups labels)

text \<open>
  C2. Segmenting the text \<^verbatim>\<open>"Dieu 1. Title A\nBody A\nDieu 2. Title B\nBody B"\<close> yields exactly
  two articles, labelled \<^verbatim>\<open>Dieu 1\<close> and \<^verbatim>\<open>Dieu 2\<close>, with the titles \<^verbatim>\<open>Title A\<close> and \<^verbatim>\<open>Title B\<close>,
  each with exactly one clause (ordinal \<^verbatim>\<open>1\<close>, no points) whose text is the body line.
\<close>

theorem two_dieu_segmentation:
  "articles (segment two_dieu_text None) =
     [dict_article (w_dieu @ ustr '' 1'') (ustr ''Title A'') [whole_clause (ustr ''Body A'')],
      dict_article (w_dieu @ ustr '' 2'') (ustr ''Title B'') [whole_clause (ustr ''Body B'')]]"
proof -
  have "length (re_finditer ART_LAW two_dieu_text) = 2"
    by (simp add: matches_two_dieu)
  then have "segment_generic_document two_dieu_text =
      result (segment_by_dieu two_dieu_text (re_finditer ART_LAW two_dieu_text)) (Some ''dieu'')"
    by (simp add: segment_generic_document_def)
  then show ?thesis
    by (simp add: segment_def examples_nonempty normalize_two_dieu detect_two_dieu
        by_dieu_two_dieu Let_def)
qed

text \<open>
  C4 fails on the code. A decree with one article is segmented by the Dieu stage, and the
  result carries no \<^verbatim>\<open>strategy_used\<close> tag: \<^verbatim>\<open>_segment_decree_document\<close> never sets the key (nor
  does \<^verbatim>\<open>_segment_circular_document\<close>, nor \<^verbatim>\<open>_segment_law_document\<close> below two matches), while
  \<^verbatim>\<open>_segment_generic_document\<close> sets it on every return.
\<close>

theorem decree_without_strategy:
  "document_type (segment decree_text None) = Some ''decree'' \<and>
   articles (segment decree_text None) =
     [dict_article (w_dieu @ ustr '' 1'') (ustr ''A'') [whole_clause (ustr ''B'')]] \<and>
   strategy_used (segment decree_text None) = None"
proof -
  have "length (re_finditer ART_LAW decree_text) = 1"
    by (simp add: matches_decree)
  then have "segment_decree_document decree_text =
      result (segment_by_dieu decree_text (re_finditer ART_LAW decree_text)) None"
    by (simp add: segment_decree_document_def)
  then show ?thesis
    by (simp add: segment_def examples_nonempty normalize_decree detect_decree
        by_dieu_decree result_def Let_def)
qed

subsection \<open>The thresholds of the Dieu stage\<close>

text \<open>
  C8, as amended. In the first stage the Dieu strategy succeeds (its matches become the
  article list) exactly when it finds at least 2 matches for a law or a generic document, and
  at least 1 match for a decree; with fewer matches the cascade goes on to the next stage of
  that document type (the chapters; then, for a generic document, the Roman sections and the
  line scan, and for a decree the line scan). For a law in which the chapter stage finds no
  header, the Dieu strategy is applied a second time and succeeds with a single match; only
  with no match does the law reach the line scan.
\<close>

theorem dieu_strategy_thresholds:
  "(2 \<le> length (re_finditer ART_LAW text) \<longrightarrow>
      articles (segment_law_document text) = segment_by_dieu text (re_finditer ART_LAW text) \<and>
      articles (segment_generic_document text) =
        segment_by_dieu text (re_finditer ART_LAW text)) \<and>
   (1 \<le> length (re_finditer ART_LAW text) \<longrightarrow>
      articles (segment_decree_document text) =
        segment_by_dieu text (re_finditer ART_LAW text)) \<and>
   (length (re_finditer ART_LAW text) < 2 \<and> re_finditer CHAPTER text \<noteq> [] \<longrightarrow>
      articles (segment_law_document text) = law_chapters text (re_finditer CHAPTER text) \<and>
      articles (segment_generic_document text) =
        segment_by_chapters_advanced text (re_finditer CHAPTER text)) \<and>
   (length (re_finditer ART_LAW text) = 1 \<and> re_finditer CHAPTER text = [] \<longrightarrow>
      articles (segment_law_document text) = segment_by_dieu text (re_finditer ART_LAW text)) \<and>
   (re_finditer ART_LAW text = [] \<and> re_finditer CHAPTER text = [] \<longrightarrow>
      articles (segment_law_document text) = segment_fallback_advanced text) \<and>
   (length (re_finditer ART_LAW text) < 2 \<and> re_finditer CHAPTER text = [] \<longrightarrow>
      articles (segment_generic_document text) =
        (if 2 \<le> length (re_finditer ROMAN text)
         then segment_by_roman_advanced text (re_finditer ROMAN text)
         else segment_fallback_advanced text)) \<and>
   (re_finditer ART_LAW text = [] \<longrightarrow>
      articles (segment_decree_document text) =
        (if re_finditer CHAPTER text \<noteq> []
         then segment_by_chapters_advanced text (re_finditer CHAPTER text)
         else segment_fallback_advanced text))"
proof -
  let ?d = "re_finditer ART_LAW text"
  let ?c = "re_finditer CHAPTER text"
  let ?r = "re_finditer ROMAN text"
  have many: "articles (segment_law_document text) = segment_by_dieu text ?d"
    "articles (segment_generic_document text) = segment_by_dieu text ?d"
    if "2 \<le> length ?d"
    using that by (simp_all add: segment_law_document_def segment_generic_document_def)
  have decree: "articles (segment_decree_document text) = segment_by_dieu text ?d"
    if "1 \<le> length ?d"
    using that by (simp add: segment_decree_document_def)
  have law_few: "articles (segment_law_document text) =
      (if ?c \<noteq> [] then law_chapters text ?c
       else if ?d \<noteq> [] then segment_by_dieu text ?d
       else segment_fallback_advanced text)"
    if "length ?d < 2"
    using that by (simp add: segment_law_document_def Let_def)
  have generic_few: "articles (segment_generic_document text) =
      (if ?c \<noteq> [] then segment_by_chapters_advanced text ?c
       else if 2 \<le> length ?r then segment_by_roman_advanced text ?r
       else segment_fallback_advanced text)"
    if "length ?d < 2"
  proof -
    have "segment_by_roman_advanced text ?r \<noteq> []" if "2 \<le> length ?r"
      using that by auto
    then show ?thesis
      using \<open>length ?d < 2\<close>
      by (simp add: segment_generic_document_def Let_def try_segment_by_chapters_def
          try_segment_by_sections_def try_segment_by_roman_def
          segment_by_chapters_advanced_nonempty segment_fallback_advanced_nonempty)
  qed
  have decree_none: "articles (segment_decree_document text) =
      (if ?c \<noteq> [] then segment_by_chapters_advanced text ?c
       else segment_fallback_advanced text)"
    if "?d = []"
    using that by (simp add: segment_decree_document_def Let_def)
  have one: "?d \<noteq> []" if "length ?d = 1"
    using that by auto
  show ?thesis
    using many decree
    by (intro conjI impI) (simp_all add: law_few generic_few decree_none one)
qed

lemma matches_single_headers:
  "re_finditer ART_LAW chapter_text = []"
  "re_finditer CHAPTER chapter_text \<noteq> []"
  "re_finditer ART_LAW header_text = []"
  "re_finditer CHAPTER header_text = []"
  by (simp_all add: example_defs text_defs rx_defs pattern_defs)

text \<open>
  The two-article text in the generic and the decree cascade, the law with one article, a
  chapter header in the law cascade, and a text without articles and chapters.
\<close>

theorem dieu_strategy_thresholds_witness:
  "articles (segment_generic_document two_dieu_text) =
     segment_by_dieu two_dieu_text (re_finditer ART_LAW two_dieu_text) \<and>
   articles (segment_decree_document two_dieu_text) =
     segment_by_dieu two_dieu_text (re_finditer ART_LAW two_dieu_text) \<and>
   articles (segment_law_document law_text) =
     segment_by_dieu law_text (re_finditer ART_LAW law_text) \<and>
   articles (segment_law_document chapter_text) =
     law_chapters chapter_text (re_finditer CHAPTER chapter_text) \<and>
   articles (segment_law_document header_text) = segment_fallback_advanced header_text \<and>
   articles (segment_decree_document header_text) = segment_fallback_advanced header_text"
proof -
  have two: "length (re_finditer ART_LAW two_dieu_text) = 2"
    by (simp add: matches_two_dieu)
  have one: "length (re_finditer ART_LAW law_text) = 1"
    by (simp add: matches_law)
  have none: "length (re_finditer ART_LAW chapter_text) = 0"
    by (simp add: matches_single_headers)
  note many = dieu_strategy_thresholds [of two_dieu_text]
  note single = dieu_strategy_thresholds [of law_text]
  note chapters = dieu_strategy_thresholds [of chapter_text]
  note neither = dieu_strategy_thresholds [of header_text]
  have "articles (segment_generic_document two_dieu_text) =
     segment_by_dieu two_dieu_text (re_finditer ART_LAW two_dieu_text)"
    and "articles (segment_decree_document two_dieu_text) =
     segment_by_dieu two_dieu_text (re_finditer ART_LAW two_dieu_text)"
    using many two by simp_all
  moreover have "articles (segment_law_document law_text) =
     segment_by_dieu law_text (re_finditer ART_LAW law_text)"
    using single one chapters_law by simp
  moreover have "articles (segment_law_document chapter_text) =
     law_chapters chapter_text (re_finditer CHAPTER chapter_text)"
    using chapters none matches_single_headers(2) by simp
  moreover have "articles (segment_law_document header_text) =
      segment_fallback_advanced header_text"
    and "articles (segment_decree_document header_text) = segment_fallback_advanced header_text"
    using neither matches_single_headers(3,4) by simp_all
  ultimately show ?thesis
    by simp
qed

text \<open>
  C8 as stated fails for a law: with a single match and no chapter header, the match of the
  Dieu strategy becomes the article list.
\<close>

theorem dieu_threshold_counterexample:
  "document_type (segment law_text None) = Some ''law'' \<and>
   length (re_finditer ART_LAW (normalize_text law_text)) = 1 \<and>
   articles (segment law_text None) =
     segment_by_dieu (normalize_text law_text) (re_finditer ART_LAW (normalize_text law_text)) \<and>
   articles (segment law_text None) =
     [dict_article (w_dieu @ ustr '' 1'') (ustr ''A'') [whole_clause (ustr ''B'')]]"
proof -
  have "articles (segment_law_document law_text) =
      segment_by_dieu law_text (re_finditer ART_LAW law_text)"
    by (simp add: segment_law_document_def chapters_law matches_law Let_def)
  then show ?thesis
    by (simp add: segment_def examples_nonempty normalize_law detect_law by_dieu_law Let_def)
      (simp add: matches_law)
qed

end
